theory Spec2Isabelle
  imports Main "HOL-Library.Word"
begin

section \<open>The data the program shares with the multimedia library\<close>

text \<open>
  main.c is glue around libavformat, libavcodec and libavutil. Every library call is
  modelled as an oracle over an opaque library state \<open>'x\<close> (demuxer position, decoder
  buffers, heap memory): the oracle takes the arguments the program passes and the
  library state, and gives back what the program can observe of the call together with
  the new library state. The program's own control flow, its variables, the bytes it
  sends to the destination file and the order of its library calls are modelled from
  the source.

  C \<open>int\<close> is modelled as \<open>int\<close>: the program's arithmetic on its integers is
  comparisons, \<open>FFMIN\<close>, \<open>frame_count += 1\<close>, \<open>pkt.size -= decoded\<close> and the product of
  line 103. The product is taken in 32 bits, as the compiled code takes it (\<open>wrap_int\<close>),
  since its result is the number of bytes written. Signed overflow is undefined in C,
  so for the counter and the packet size the model speaks of the runs in which they
  stay in the range of \<open>int\<close>. Conversions to unsigned types (\<open>size_t\<close>, \<open>unsigned\<close>) and
  unsigned arithmetic are written out with their modulus.
\<close>

type_synonym byte = "8 word"

type_synonym ptr = nat \<comment> \<open>an address; 0 is NULL\<close>

datatype AVMediaType =
    AVMEDIA_TYPE_UNKNOWN
  | AVMEDIA_TYPE_VIDEO
  | AVMEDIA_TYPE_AUDIO
  | AVMEDIA_TYPE_DATA
  | AVMEDIA_TYPE_SUBTITLE
  | AVMEDIA_TYPE_ATTACHMENT
  | AVMEDIA_TYPE_NB

definition AV_PIX_FMT_NONE :: int where
  "AV_PIX_FMT_NONE = - 1"

definition AV_NUM_DATA_POINTERS :: nat where
  "AV_NUM_DATA_POINTERS = 8"

definition INT_MAX :: nat where
  "INT_MAX = 2147483647"

record AVCodecContext =
  codec_type :: AVMediaType
  codec_id :: int
  ctx_width :: int
  ctx_height :: int
  ctx_pix_fmt :: int

record AVCodec =
  dec_id :: int

record AVStream =
  stream_codec :: "AVCodecContext option" \<comment> \<open>\<open>streams[i]->codec\<close>, \<open>None\<close> when NULL\<close>

record AVPacket =
  pkt_data :: ptr
  pkt_size :: int

text \<open>
  The fields of \<open>AVFrame\<close> the program reads, and \<open>frame_buf\<close>: whether the frame
  holds references to data buffers (\<open>frame->buf[0]\<close> is set). The timestamps and the
  picture number are only printed and are left out.
\<close>

record AVFrame =
  frame_width :: int
  frame_height :: int
  frame_format :: int
  nb_samples :: int
  extended_data0 :: ptr \<comment> \<open>\<open>frame->extended_data[0]\<close>\<close>
  frame_buf :: bool

record AVSubtitleRect =
  rect_x :: int
  rect_y :: int
  rect_w :: int
  rect_h :: int
  nb_colors :: int
  rect_flags :: int
  pict_data :: "nat \<Rightarrow> ptr" \<comment> \<open>\<open>pict.data[j]\<close>\<close>
  pict_linesize :: "nat \<Rightarrow> int" \<comment> \<open>\<open>pict.linesize[j]\<close>\<close>
  rect_text :: "string option" \<comment> \<open>\<open>None\<close> when the pointer is NULL\<close>
  rect_ass :: "string option"

record AVSubtitle =
  rects :: "AVSubtitleRect list" \<comment> \<open>\<open>sub.rects[0 .. sub.num_rects - 1]\<close>\<close>

text \<open>
  The library, as far as main.c uses it. Each field is the C function of the same name;
  \<open>lib_void\<close> stands for the calls whose result the program does not use (by function
  name), \<open>streams\<close> reads \<open>fmt_ctx->streams\<close> and \<open>peek\<close> reads one byte of memory.
\<close>

record 'x libav =
  av_dict_set :: "string \<Rightarrow> string option \<Rightarrow> 'x \<Rightarrow> int \<times> 'x"
  av_find_input_format :: "string \<Rightarrow> 'x \<Rightarrow> bool \<times> 'x"
  avformat_open_input :: "string \<Rightarrow> 'x \<Rightarrow> int \<times> 'x"
  avformat_find_stream_info :: "'x \<Rightarrow> int \<times> 'x"
  streams :: "'x \<Rightarrow> AVStream list"
  avcodec_find_decoder_by_name :: "string option \<Rightarrow> 'x \<Rightarrow> AVCodec option"
  avcodec_find_decoder :: "int \<Rightarrow> 'x \<Rightarrow> AVCodec option"
  avcodec_open2 :: "AVCodecContext \<Rightarrow> AVCodec \<Rightarrow> 'x \<Rightarrow> (int \<times> AVCodecContext) \<times> 'x"
  fopen :: "string \<Rightarrow> 'x \<Rightarrow> bool \<times> 'x"
  av_image_alloc ::
    "int \<Rightarrow> int \<Rightarrow> int \<Rightarrow> int \<Rightarrow> 'x \<Rightarrow> (int \<times> (nat \<Rightarrow> ptr) \<times> (nat \<Rightarrow> int)) \<times> 'x"
  av_frame_alloc :: "'x \<Rightarrow> bool \<times> 'x"
  av_read_frame :: "'x \<Rightarrow> (int \<times> AVPacket) \<times> 'x"
  avcodec_decode_video2 ::
    "AVCodecContext \<Rightarrow> AVFrame \<Rightarrow> AVPacket \<Rightarrow> 'x \<Rightarrow> (int \<times> int \<times> AVFrame) \<times> 'x"
  avcodec_decode_audio4 ::
    "AVCodecContext \<Rightarrow> AVFrame \<Rightarrow> AVPacket \<Rightarrow> 'x \<Rightarrow> (int \<times> int \<times> AVFrame) \<times> 'x"
  avcodec_decode_subtitle2 ::
    "AVCodecContext \<Rightarrow> AVPacket \<Rightarrow> 'x \<Rightarrow> (int \<times> int \<times> AVSubtitle) \<times> 'x"
  av_image_copy ::
    "(nat \<Rightarrow> ptr) \<Rightarrow> (nat \<Rightarrow> int) \<Rightarrow> AVFrame \<Rightarrow> int \<Rightarrow> int \<Rightarrow> int \<Rightarrow> 'x \<Rightarrow> 'x"
  av_get_bytes_per_sample :: "int \<Rightarrow> int"
  AFL_LOOP :: "nat \<Rightarrow> 'x \<Rightarrow> bool \<times> 'x" \<comment> \<open>the fuzzer's \<open>__AFL_LOOP(n)\<close>\<close>
  lib_void :: "string \<Rightarrow> 'x \<Rightarrow> 'x"
  peek :: "'x \<Rightarrow> ptr \<Rightarrow> byte"

section \<open>The program's state\<close>

text \<open>What the program does that is visible from outside, in order.\<close>

datatype event =
    Stderr string \<comment> \<open>\<open>fprintf(stderr, ...)\<close>, by the text of its format\<close>
  | Stdout string \<comment> \<open>\<open>printf(...)\<close>, by the text of its format\<close>
  | Call string \<comment> \<open>a library call, by function name\<close>
  | ReadFrame int \<comment> \<open>\<open>av_read_frame\<close> and what it returned\<close>
  | Decode AVMediaType AVPacket int int
      \<comment> \<open>a decode call: the packet passed, the return value and \<open>*got_frame\<close>\<close>
  | Exit int \<comment> \<open>\<open>exit(status)\<close>\<close>

text \<open>The file-scope variables of main.c (lines 39-43).\<close>

record globals =
  width :: int
  height :: int
  pix_fmt :: int
  video_dst_data :: "nat \<Rightarrow> ptr" \<comment> \<open>\<open>video_dst_data[i]\<close>\<close>
  video_dst_linesize :: "nat \<Rightarrow> int" \<comment> \<open>\<open>video_dst_linesize[i]\<close>\<close>
  video_dst_bufsize :: int

text \<open>
  The globals, the locals of \<open>main\<close> that \<open>decode_packet\<close> reaches through its pointer
  arguments, the bytes written so far to the stream \<open>dst_file\<close> (\<open>dst_open\<close>: the
  \<open>FILE *\<close> is not NULL), the events so far and the library state.
\<close>

record 'x state =
  glob :: globals
  ret :: int
  dst_open :: bool
  dst_file :: "byte list"
  frame :: AVFrame
  got_frame :: int
  frame_count :: int
  pkt :: AVPacket
  trace :: "event list"
  ext :: 'x

definition emit :: "event \<Rightarrow> 'x state \<Rightarrow> 'x state" where
  "emit e s = s\<lparr>trace := trace s @ [e]\<rparr>"

definition void :: "'x libav \<Rightarrow> string \<Rightarrow> 'x state \<Rightarrow> 'x state" where
  "void L name s = emit (Call name) (s\<lparr>ext := lib_void L name (ext s)\<rparr>)"

section \<open>Writing to the destination file\<close>

definition size_t_of_int :: "int \<Rightarrow> nat" where
  "size_t_of_int n = nat (n mod 2 ^ 64)"

definition unsigned_of_int :: "int \<Rightarrow> nat" where
  "unsigned_of_int n = nat (n mod 2 ^ 32)"

text \<open>The result of arithmetic in \<open>int\<close>: 32 bits, two's complement.\<close>

definition wrap_int :: "int \<Rightarrow> int" where
  "wrap_int n = (n + 2 ^ 31) mod 2 ^ 32 - 2 ^ 31"

text \<open>\<open>fwrite(p, 1, n, dst_file)\<close>: the \<open>n\<close> bytes of memory from address \<open>p\<close> on.\<close>

definition fwrite :: "'x libav \<Rightarrow> ptr \<Rightarrow> nat \<Rightarrow> 'x state \<Rightarrow> 'x state" where
  "fwrite L p n s = s\<lparr>dst_file := dst_file s @ map (peek L (ext s)) [p ..< p + n]\<rparr>"

definition fputs_dst :: "string \<Rightarrow> 'x state \<Rightarrow> 'x state" where
  "fputs_dst str s = s\<lparr>dst_file := dst_file s @ map of_char str\<rparr>"

fun digits :: "nat \<Rightarrow> nat \<Rightarrow> string" where
  "digits b n =
     (if b < 2 \<or> n < b then [''0123456789abcdef'' ! (n mod 16)]
      else digits b (n div b) @ [''0123456789abcdef'' ! (n mod b)])"

declare digits.simps [simp del]

definition fmt_d :: "int \<Rightarrow> string" where \<comment> \<open>\<open>%d\<close>\<close>
  "fmt_d i = (if i < 0 then CHR ''-'' # digits 10 (nat (- i)) else digits 10 (nat i))"

definition fmt_x :: "int \<Rightarrow> string" where \<comment> \<open>\<open>%x\<close> of an \<open>int\<close> argument\<close>
  "fmt_x i = digits 16 (unsigned_of_int i)"

definition fmt_s :: "string option \<Rightarrow> string" where \<comment> \<open>\<open>%s\<close>; glibc prints a NULL as (null)\<close>
  "fmt_s t = (case t of None \<Rightarrow> ''(null)'' | Some str \<Rightarrow> str)"

section \<open>decode_packet (main.c, lines 45-169)\<close>

text \<open>The dump of one subtitle rectangle (lines 138-159), innermost loop first.\<close>

definition dump_pixel :: "'x libav \<Rightarrow> AVSubtitleRect \<Rightarrow> nat \<Rightarrow> nat \<Rightarrow> nat \<Rightarrow> 'x state \<Rightarrow> 'x state" where
  "dump_pixel L r j k l s =
     fputs_dst
       (fmt_x (uint (peek L (ext s)
          (pict_data r j + (l + k * unsigned_of_int (pict_linesize r j)) mod 2 ^ 32)))) s"

definition dump_row :: "'x libav \<Rightarrow> AVSubtitleRect \<Rightarrow> nat \<Rightarrow> nat \<Rightarrow> 'x state \<Rightarrow> 'x state" where
  "dump_row L r j k s =
     fputs_dst [CHR 0x0A] (fold (dump_pixel L r j k) [0 ..< unsigned_of_int (rect_w r)] s)"

definition dump_plane :: "'x libav \<Rightarrow> AVSubtitleRect \<Rightarrow> nat \<Rightarrow> 'x state \<Rightarrow> 'x state" where
  "dump_plane L r j s =
     (if pict_linesize r j \<noteq> 0
      then fold (dump_row L r j) [0 ..< unsigned_of_int (rect_h r)]
             (fputs_dst (''data:'' @ fmt_d (int j) @ [CHR 0x0A]) s)
      else s)"

definition rect_header :: "AVSubtitleRect \<Rightarrow> string" where
  "rect_header r =
     ''x:'' @ fmt_d (rect_x r) @ '' y:'' @ fmt_d (rect_y r) @ '' w:'' @ fmt_d (rect_w r) @
     '' h:'' @ fmt_d (rect_h r) @ '' nb_colors:'' @ fmt_d (nb_colors r) @
     '' flags:'' @ fmt_x (rect_flags r) @ '' linesizes:'' @
     fmt_d (pict_linesize r 0) @ '','' @ fmt_d (pict_linesize r 1) @ '','' @
     fmt_d (pict_linesize r 2) @ '','' @ fmt_d (pict_linesize r 3) @ '','' @
     fmt_d (pict_linesize r 4) @ '','' @ fmt_d (pict_linesize r 5) @ '','' @
     fmt_d (pict_linesize r 6) @ '','' @ fmt_d (pict_linesize r 7) @ [CHR 0x0A] @
     ''text:'' @ fmt_s (rect_text r) @ [CHR 0x0A] @ ''ass:'' @ fmt_s (rect_ass r) @ [CHR 0x0A]"

definition dump_rect :: "'x libav \<Rightarrow> AVSubtitleRect \<Rightarrow> 'x state \<Rightarrow> 'x state" where
  "dump_rect L r s =
     fold (dump_plane L r) [0 ..< AV_NUM_DATA_POINTERS] (fputs_dst (rect_header r) s)"

text \<open>
  \<open>av_frame_unref\<close>: the frame gives up its buffers and its fields are reset.
\<close>

definition frame_defaults :: AVFrame where
  "frame_defaults =
     \<lparr>frame_width = 0, frame_height = 0, frame_format = - 1, nb_samples = 0,
      extended_data0 = 0, frame_buf = False\<rparr>"

definition av_frame_unref :: "'x libav \<Rightarrow> 'x state \<Rightarrow> 'x state" where
  "av_frame_unref L s = void L ''av_frame_unref'' (s\<lparr>frame := frame_defaults\<rparr>)"

text \<open>Lines 164-168: the step every path shares that does not return early.\<close>

definition leave :: "'x libav \<Rightarrow> int \<Rightarrow> 'x state \<Rightarrow> int \<times> 'x state" where
  "leave L r s = (r, if got_frame s \<noteq> 0 then av_frame_unref L s else s)"

definition decode_video :: "'x libav \<Rightarrow> AVCodecContext \<Rightarrow> 'x state \<Rightarrow> int \<times> 'x state" where
  "decode_video L dec_ctx s0 =
     (let ((r, got, fr), x) = avcodec_decode_video2 L dec_ctx (frame s0) (pkt s0) (ext s0);
          s = emit (Decode AVMEDIA_TYPE_VIDEO (pkt s0) r got)
                (s0\<lparr>ext := x, frame := fr, got_frame := got\<rparr>)
      in
      if r < 0 then (r, emit (Stderr ''Error decoding video frame (%s)'') s)
      else if got_frame s \<noteq> 0 then
        (if frame_width (frame s) \<noteq> width (glob s) \<or> frame_height (frame s) \<noteq> height (glob s) \<or>
            frame_format (frame s) \<noteq> pix_fmt (glob s)
         then (- 1, emit (Stderr ''Error: input video width/height/format changed:'') s)
         else
           (let s = emit (Stdout ''video_frame n:%d coded_n:%d pts:%s'') s;
                s = emit (Call ''av_image_copy'')
                      (s\<lparr>ext := av_image_copy L (video_dst_data (glob s))
                                 (video_dst_linesize (glob s)) (frame s) (pix_fmt (glob s))
                                 (width (glob s)) (height (glob s)) (ext s)\<rparr>);
                s = s\<lparr>frame_count := frame_count s + 1\<rparr>;
                s = fwrite L (video_dst_data (glob s) 0)
                      (size_t_of_int (video_dst_bufsize (glob s))) s
            in leave L r s))
      else leave L r s)"

definition decode_audio :: "'x libav \<Rightarrow> AVCodecContext \<Rightarrow> 'x state \<Rightarrow> int \<times> 'x state" where
  "decode_audio L dec_ctx s0 =
     (let ((r, got, fr), x) = avcodec_decode_audio4 L dec_ctx (frame s0) (pkt s0) (ext s0);
          s = emit (Decode AVMEDIA_TYPE_AUDIO (pkt s0) r got)
                (s0\<lparr>ext := x, frame := fr, got_frame := got\<rparr>)
      in
      if r < 0 then (r, emit (Stderr ''Error decoding audio frame (%s)'') s)
      else
        (let r = min r (pkt_size (pkt s)) in
         if got_frame s \<noteq> 0 then
           (let unpadded_linesize =
                  size_t_of_int
                    (wrap_int
                       (nb_samples (frame s) *
                        av_get_bytes_per_sample L (frame_format (frame s))));
                s = emit (Call ''av_get_bytes_per_sample'') s;
                s = emit (Stdout ''audio_frame n:%d nb_samples:%d pts:%s'') s;
                s = s\<lparr>frame_count := frame_count s + 1\<rparr>;
                s = fwrite L (extended_data0 (frame s)) unpadded_linesize s
            in leave L r s)
         else leave L r s))"

definition decode_subtitle :: "'x libav \<Rightarrow> AVCodecContext \<Rightarrow> 'x state \<Rightarrow> int \<times> 'x state" where
  "decode_subtitle L dec_ctx s0 =
     (let ((r, got, sub), x) = avcodec_decode_subtitle2 L dec_ctx (pkt s0) (ext s0);
          s = emit (Decode AVMEDIA_TYPE_SUBTITLE (pkt s0) r got) (s0\<lparr>ext := x, got_frame := got\<rparr>)
      in
      if r < 0 then (r, emit (Stderr ''Error decoding subtitle (%s)'') s)
      else if got_frame s \<noteq> 0 then
        (let s = emit (Stdout ''subtitle n:%d format:%u pts:%s'') s;
             s = s\<lparr>frame_count := frame_count s + 1\<rparr>;
             s = fold (dump_rect L) (rects sub) s;
             s = void L ''avsubtitle_free'' s
         in leave L r s)
      else leave L r s)"

text \<open>
  \<open>decode_packet(dec_ctx, dst_file, frame, &got_frame, &frame_count, &pkt)\<close>: the
  pointer arguments are fields of the state; the result is the return value and the
  state after the call.
\<close>

definition decode_packet :: "'x libav \<Rightarrow> AVCodecContext \<Rightarrow> 'x state \<Rightarrow> int \<times> 'x state" where
  "decode_packet L dec_ctx s0 =
     (let s = s0\<lparr>got_frame := 0\<rparr> in
      if codec_type dec_ctx = AVMEDIA_TYPE_VIDEO then decode_video L dec_ctx s
      else if codec_type dec_ctx = AVMEDIA_TYPE_AUDIO then decode_audio L dec_ctx s
      else if codec_type dec_ctx = AVMEDIA_TYPE_SUBTITLE then decode_subtitle L dec_ctx s
      else leave L (- 1) s)"

section \<open>The packet pump and the flush (main.c, lines 339-357)\<close>

text \<open>
  The loops end when the library says so, so each takes fuel: \<open>None\<close> is a loop that
  has not ended within the fuel given.
\<close>

definition av_free_packet :: "'x libav \<Rightarrow> 'x state \<Rightarrow> 'x state" where
  "av_free_packet L s = void L ''av_free_packet'' (s\<lparr>pkt := \<lparr>pkt_data = 0, pkt_size = 0\<rparr>\<rparr>)"

text \<open>Lines 341-348: the \<open>do ... while (pkt.size > 0)\<close> over one packet.\<close>

fun packet_loop :: "nat \<Rightarrow> 'x libav \<Rightarrow> AVCodecContext \<Rightarrow> 'x state \<Rightarrow> 'x state option" where
  "packet_loop 0 L dec_ctx s = None"
| "packet_loop (Suc n) L dec_ctx s =
     (let (decoded, s) = decode_packet L dec_ctx s in
      if decoded < 0 then Some s
      else
        (let s = s\<lparr>pkt := \<lparr>pkt_data = pkt_data (pkt s) + nat decoded,
                             pkt_size = pkt_size (pkt s) - decoded\<rparr>\<rparr>
         in if pkt_size (pkt s) > 0 then packet_loop n L dec_ctx s else Some s))"

text \<open>Lines 340-350: \<open>while (av_read_frame(fmt_ctx, &pkt) >= 0)\<close>.\<close>

fun read_loop :: "nat \<Rightarrow> 'x libav \<Rightarrow> AVCodecContext \<Rightarrow> 'x state \<Rightarrow> 'x state option" where
  "read_loop 0 L dec_ctx s = None"
| "read_loop (Suc n) L dec_ctx s =
     (let ((r, p), x) = av_read_frame L (ext s);
          s = emit (ReadFrame r) (s\<lparr>ext := x, pkt := p\<rparr>)
      in
      if r \<ge> 0 then
        (case packet_loop n L dec_ctx s of
           None \<Rightarrow> None
         | Some s \<Rightarrow> read_loop n L dec_ctx (av_free_packet L s))
      else Some s)"

text \<open>Lines 355-357: \<open>do decode_packet(...) while (got_frame)\<close>.\<close>

fun flush_loop :: "nat \<Rightarrow> 'x libav \<Rightarrow> AVCodecContext \<Rightarrow> 'x state \<Rightarrow> 'x state option" where
  "flush_loop 0 L dec_ctx s = None"
| "flush_loop (Suc n) L dec_ctx s =
     (let (decoded, s) = decode_packet L dec_ctx s in
      if got_frame s \<noteq> 0 then flush_loop n L dec_ctx s else Some s)"

section \<open>open_codec_context (main.c, lines 171-211)\<close>

text \<open>Lines 178-186: the first stream with a codec context that the decoder fits.\<close>

fun find_stream :: "AVCodec option \<Rightarrow> AVStream list \<Rightarrow> AVCodecContext option" where
  "find_stream dec [] = None"
| "find_stream dec (st # sts) =
     (case stream_codec st of
        None \<Rightarrow> find_stream dec sts
      | Some c \<Rightarrow>
          (case dec of
             None \<Rightarrow> Some c
           | Some d \<Rightarrow> if codec_id c = dec_id d then Some c else find_stream dec sts))"

definition dict_set :: "'x libav \<Rightarrow> string \<Rightarrow> string option \<Rightarrow> 'x state \<Rightarrow> int \<times> 'x state" where
  "dict_set L key val s =
     (let (r, x) = av_dict_set L key val (ext s)
      in (r, emit (Call ''av_dict_set'') (s\<lparr>ext := x\<rparr>)))"

text \<open>
  The result is the return value and \<open>*dec_ctx\<close> (\<open>None\<close>: still NULL), the context
  as \<open>avcodec_open2\<close> leaves it.
\<close>

definition open_codec_context ::
  "'x libav \<Rightarrow> string option \<Rightarrow> 'x state \<Rightarrow> (int \<times> AVCodecContext option) \<times> 'x state" where
  "open_codec_context L codec_name s0 =
     (let dec = avcodec_find_decoder_by_name L codec_name (ext s0);
          s = emit (Call ''avcodec_find_decoder_by_name'') s0
      in
      case find_stream dec (take INT_MAX (streams L (ext s))) of
        None \<Rightarrow> ((- 1, None), emit (Stderr ''Could not find stream'') s)
      | Some c \<Rightarrow>
          (let (dec, s) =
                 (case dec of
                    None \<Rightarrow>
                      (avcodec_find_decoder L (codec_id c) (ext s),
                       emit (Call ''avcodec_find_decoder'') s)
                  | Some d \<Rightarrow> (Some d, s))
           in
           case dec of
             None \<Rightarrow> ((- 1, Some c), emit (Stderr ''Failed to find decoder'') s)
           | Some d \<Rightarrow>
               (let s = snd (dict_set L ''refcounted_frames'' (Some ''1'') s);
                    s = snd (dict_set L ''strict'' (Some ''-2'') s);
                    s = snd (dict_set L ''codec_whitelist'' codec_name s);
                    s = snd (dict_set L ''thread_type'' (Some ''slice'') s);
                    ((r, c'), x) = avcodec_open2 L c d (ext s);
                    s = emit (Call ''avcodec_open2'') (s\<lparr>ext := x\<rparr>);
                    s = (if r < 0 then emit (Stderr ''Failed to open decoder'') s else s);
                    s = void L ''av_dict_free'' s
                in ((r, Some c'), s))))"

section \<open>main (main.c, lines 213-373)\<close>

record args =
  src_filename :: string
  dst_filename :: string
  format :: "string option"
  codec :: "string option"

text \<open>Lines 246-261: the locals of the block and the reset of the globals.\<close>

definition reset_globals :: globals where
  "reset_globals =
     \<lparr>width = 0, height = 0, pix_fmt = AV_PIX_FMT_NONE, video_dst_data = (\<lambda>i. 0),
      video_dst_linesize = (\<lambda>i. 0), video_dst_bufsize = 0\<rparr>"

definition begin_pass :: "'x state \<Rightarrow> 'x state" where
  "begin_pass s =
     s\<lparr>dst_open := False, dst_file := [], frame := frame_defaults, got_frame := 0,
       frame_count := 0, pkt := \<lparr>pkt_data = 0, pkt_size = 0\<rparr>, ret := 0,
       glob := reset_globals\<rparr>"

text \<open>
  Lines 263-337, up to the pump, step by step. Each step gives \<open>Inl\<close>, the state at
  its \<open>goto end\<close> (after the message, before \<open>ret = 1\<close>), or \<open>Inr\<close>, the state
  the next step starts from; \<open>then_do\<close> chains the steps.
\<close>

definition then_do :: "'e + 'a \<Rightarrow> ('a \<Rightarrow> 'e + 'b) \<Rightarrow> 'e + 'b" where
  "then_do m f = (case m of Inl e \<Rightarrow> Inl e | Inr v \<Rightarrow> f v)"

text \<open>Lines 263-273: the whitelists.\<close>

definition set_whitelists :: "'x libav \<Rightarrow> args \<Rightarrow> 'x state \<Rightarrow> 'x state + 'x state" where
  "set_whitelists L a s0 =
     (let (r, s) = dict_set L ''codec_whitelist'' (codec a) s0
      in
      if r < 0 then Inl (emit (Stderr ''Could not set codec_whitelist.'') s)
      else
        (let (r, s) = dict_set L ''format_whitelist'' (format a) s
         in
         if r < 0 then Inl (emit (Stderr ''Could not set format_whitelist.'') s)
         else Inr s))"

text \<open>Lines 275-294: the input format, the input file and its stream information.\<close>

definition open_input :: "'x libav \<Rightarrow> args \<Rightarrow> 'x state \<Rightarrow> 'x state + 'x state" where
  "open_input L a s0 =
     (let (fmt_found, s) =
            (case format a of
               None \<Rightarrow> (True, s0)
             | Some f \<Rightarrow>
                 (let (found, x) = av_find_input_format L f (ext s0)
                  in (found, emit (Call ''av_find_input_format'') (s0\<lparr>ext := x\<rparr>))))
      in
      if \<not> fmt_found then Inl (emit (Stderr ''Could not find input format %s'') s)
      else
        (let (r, x) = avformat_open_input L (src_filename a) (ext s);
             s = emit (Call ''avformat_open_input'') (s\<lparr>ext := x\<rparr>)
         in
         if r < 0 then Inl (emit (Stderr ''Could not open source file %s'') s)
         else
           (let (r, x) = avformat_find_stream_info L (ext s);
                s = emit (Call ''avformat_find_stream_info'') (s\<lparr>ext := x\<rparr>)
            in Inr (if r < 0 then emit (Stderr ''Could not find stream information'') s
                    else s))))"

text \<open>Lines 296-302: the stream and its decoder.\<close>

definition select_stream ::
  "'x libav \<Rightarrow> args \<Rightarrow> 'x state \<Rightarrow> 'x state + AVCodecContext \<times> 'x state" where
  "select_stream L a s0 =
     (let ((r, ctx), s) = open_codec_context L (codec a) s0
      in
      if r < 0 then Inl (emit (Stderr ''Could not open any stream in input file'') s)
      else
        (case ctx of
           None \<Rightarrow> Inl s \<comment> \<open>not reached: a result \<open>\<ge> 0\<close> comes with a context\<close>
         | Some dec_ctx \<Rightarrow> Inr (dec_ctx, s)))"

text \<open>Lines 304-310: the destination file.\<close>

definition open_output ::
  "'x libav \<Rightarrow> args \<Rightarrow> AVCodecContext \<times> 'x state \<Rightarrow> 'x state + AVCodecContext \<times> 'x state" where
  "open_output L a = (\<lambda>(dec_ctx, s0).
     (let (opened, x) = fopen L (dst_filename a) (ext s0);
          s = emit (Call ''fopen'') (s0\<lparr>ext := x, dst_open := opened\<rparr>)
      in
      if \<not> opened then Inl (emit (Stderr ''Could not open destination file %s'') s)
      else Inr (dec_ctx, s)))"

text \<open>Lines 312-324: the buffer for the raw image.\<close>

definition alloc_image ::
  "'x libav \<Rightarrow> AVCodecContext \<times> 'x state \<Rightarrow> 'x state + AVCodecContext \<times> 'x state" where
  "alloc_image L = (\<lambda>(dec_ctx, s0).
     if codec_type dec_ctx = AVMEDIA_TYPE_VIDEO then
       (let ((n, d, l), x) =
              av_image_alloc L (ctx_width dec_ctx) (ctx_height dec_ctx) (ctx_pix_fmt dec_ctx) 1
                (ext s0);
            s = emit (Call ''av_image_alloc'')
                  (s0\<lparr>ext := x,
                      glob := \<lparr>width = ctx_width dec_ctx, height = ctx_height dec_ctx,
                               pix_fmt = ctx_pix_fmt dec_ctx, video_dst_data = d,
                               video_dst_linesize = l, video_dst_bufsize = n\<rparr>\<rparr>)
        in
        if video_dst_bufsize (glob s) < 0
        then Inl (emit (Stderr ''Could not allocate raw video buffer'') s)
        else Inr (dec_ctx, s))
     else Inr (dec_ctx, s0))"

text \<open>Lines 326-337: the frame.\<close>

definition alloc_frame ::
  "'x libav \<Rightarrow> AVCodecContext \<times> 'x state \<Rightarrow> 'x state + AVCodecContext \<times> 'x state" where
  "alloc_frame L = (\<lambda>(dec_ctx, s0).
     (let s = void L ''av_dump_format'' s0;
          (allocated, x) = av_frame_alloc L (ext s);
          s = emit (Call ''av_frame_alloc'') (s\<lparr>ext := x, frame := frame_defaults\<rparr>)
      in
      if \<not> allocated then Inl (emit (Stderr ''Could not allocate frame'') s)
      else Inr (dec_ctx, emit (Stdout ''Demuxing from file'') s)))"

definition prepare :: "'x libav \<Rightarrow> args \<Rightarrow> 'x state \<Rightarrow> 'x state + AVCodecContext \<times> 'x state" where
  "prepare L a s0 =
     then_do (then_do (then_do (then_do (then_do
       (set_whitelists L a (begin_pass s0))
       (open_input L a))
       (select_stream L a))
       (open_output L a))
       (alloc_image L))
       (alloc_frame L)"

text \<open>Lines 361-369, after the label \<open>end\<close>.\<close>

definition cleanup :: "'x libav \<Rightarrow> 'x state \<Rightarrow> 'x state" where
  "cleanup L s0 =
     (let s = void L ''av_dict_free'' s0;
          s = void L ''avcodec_close'' s;
          s = void L ''avformat_close_input'' s;
          s = (if dst_open s then void L ''fclose'' s else s);
          s = void L ''av_frame_free'' s;
          s = void L ''av_free'' s
      in s)"

text \<open>The block of lines 245-370: one pass of the fuzzing loop.\<close>

definition pass :: "nat \<Rightarrow> 'x libav \<Rightarrow> args \<Rightarrow> 'x state \<Rightarrow> 'x state option" where
  "pass fuel L a s0 =
     (case prepare L a s0 of
        Inl s \<Rightarrow> Some (cleanup L (s\<lparr>ret := 1\<rparr>))
      | Inr (dec_ctx, s) \<Rightarrow>
          (case read_loop fuel L dec_ctx s of
             None \<Rightarrow> None
           | Some s \<Rightarrow>
               (let s = emit (Stdout ''Flushing cached frames.'') s;
                    s = s\<lparr>pkt := \<lparr>pkt_data = 0, pkt_size = 0\<rparr>\<rparr>
                in
                case flush_loop fuel L dec_ctx s of
                  None \<Rightarrow> None
                | Some s \<Rightarrow> Some (cleanup L (emit (Stdout ''Demuxing done.'') s)))))"

text \<open>Lines 242-244, when \<open>__AFL_HAVE_MANUAL_CONTROL\<close> is defined.\<close>

fun fuzz_loop :: "nat \<Rightarrow> 'x libav \<Rightarrow> args \<Rightarrow> 'x state \<Rightarrow> 'x state option" where
  "fuzz_loop 0 L a s = None"
| "fuzz_loop (Suc n) L a s =
     (let (again, x) = AFL_LOOP L 1000 (ext s);
          s = emit (Call ''__AFL_LOOP'') (s\<lparr>ext := x\<rparr>)
      in
      if again then (case pass n L a s of None \<Rightarrow> None | Some s \<Rightarrow> fuzz_loop n L a s)
      else Some s)"

text \<open>
  The state \<open>main\<close> starts in: the file-scope variables are zero-initialised, nothing
  has happened yet.
\<close>

definition initial_state :: "'x \<Rightarrow> 'x state" where
  "initial_state x =
     \<lparr>glob = \<lparr>width = 0, height = 0, pix_fmt = 0, video_dst_data = (\<lambda>i. 0),
              video_dst_linesize = (\<lambda>i. 0), video_dst_bufsize = 0\<rparr>,
      ret = 0, dst_open = False, dst_file = [], frame = frame_defaults, got_frame = 0,
      frame_count = 0, pkt = \<lparr>pkt_data = 0, pkt_size = 0\<rparr>, trace = [], ext = x\<rparr>"

text \<open>Lines 229-234: the arguments, for an \<open>argv\<close> of 3 or 5 entries.\<close>

definition arguments :: "string list \<Rightarrow> args" where
  "arguments argv =
     \<lparr>src_filename = argv ! 1, dst_filename = argv ! 2,
      format = (if length argv = 5 then Some (argv ! 3) else None),
      codec = (if length argv = 5 then Some (argv ! 4) else None)\<rparr>"

definition usage :: event where
  "usage = Stderr ''usage: %s input_file output_file [format codec]''"

text \<open>Lines 236-240.\<close>

definition register_all :: "'x libav \<Rightarrow> 'x state \<Rightarrow> 'x state" where
  "register_all L s = void L ''av_register_all'' (void L ''av_log_set_level'' s)"

text \<open>
  \<open>main(argc, argv)\<close> with \<open>argc = length argv\<close>; \<open>afl\<close> says whether the program was
  built with \<open>__AFL_HAVE_MANUAL_CONTROL\<close>, \<open>x\<close> is the library state at the start. The
  result is the exit status and the final state.
\<close>

definition main ::
  "nat \<Rightarrow> bool \<Rightarrow> 'x libav \<Rightarrow> string list \<Rightarrow> 'x \<Rightarrow> (int \<times> 'x state) option" where
  "main fuel afl L argv x =
     (let s = initial_state x;
          argc = length argv
      in
      if argc \<noteq> 5 \<and> argc \<noteq> 3 then Some (1, emit (Exit 1) (emit usage s))
      else
        (let a = arguments argv;
             s = register_all L s
         in
         case (if afl then fuzz_loop fuel L a s else pass fuel L a s) of
           None \<Rightarrow> None
         | Some s \<Rightarrow> Some (ret s, emit (Exit (ret s)) s)))"

section \<open>Reading the trace and the state\<close>

text \<open>A decode call that succeeded and produced a unit.\<close>

fun produced :: "event \<Rightarrow> bool" where
  "produced (Decode t p r g) = (0 \<le> r \<and> g \<noteq> 0)"
| "produced _ = False"

text \<open>The message of line 65.\<close>

definition mismatch_msg :: event where
  "mismatch_msg = Stderr ''Error: input video width/height/format changed:''"

text \<open>The events between two states of one run.\<close>

definition events_since :: "'x state \<Rightarrow> 'x state \<Rightarrow> event list" where
  "events_since s s' = drop (length (trace s)) (trace s')"

text \<open>
  The trace only grows, and as long as no frame is refused for its geometry the frame
  count grows by the number of units produced.
\<close>

definition counted :: "'x state \<Rightarrow> 'x state \<Rightarrow> bool" where
  "counted s s' =
     (\<exists>evs. trace s' = trace s @ evs \<and>
        (mismatch_msg \<notin> set evs \<longrightarrow>
           frame_count s' = frame_count s + int (length (filter produced evs))))"

text \<open>The state after one call of decode_packet.\<close>

definition decode_step :: "'x libav \<Rightarrow> AVCodecContext \<Rightarrow> 'x state \<Rightarrow> 'x state" where
  "decode_step L c s = snd (decode_packet L c s)"

text \<open>
  What every step of the set-up keeps, seen from the start of the pass: nothing was
  written or counted, and \<open>ret\<close> is still 0.
\<close>

definition ready :: "'x state \<Rightarrow> 'x state \<Rightarrow> bool" where
  "ready b s = (counted b s \<and> dst_file s = [] \<and> frame_count s = 0 \<and> ret s = 0)"

text \<open>The set-up up to the open destination file (lines 263-310), before the image is allocated.\<close>

definition open_all :: "'x libav \<Rightarrow> args \<Rightarrow> 'x state \<Rightarrow> 'x state + AVCodecContext \<times> 'x state" where
  "open_all L a s0 =
     then_do (then_do (then_do
       (set_whitelists L a (begin_pass s0))
       (open_input L a))
       (select_stream L a))
       (open_output L a)"

text \<open>
  The tightly packed image of a stream: the width, height and pixel format of its
  context, and the buffer, the line sizes and the size in bytes that av_image_alloc gives
  for them with alignment 1 (no padding at the end of a row) in the library state \<open>x\<close>.
\<close>

definition packed_image :: "'x libav \<Rightarrow> AVCodecContext \<Rightarrow> 'x \<Rightarrow> globals" where
  "packed_image L c x =
     \<lparr>width = ctx_width c, height = ctx_height c, pix_fmt = ctx_pix_fmt c,
      video_dst_data =
        fst (snd (fst (av_image_alloc L (ctx_width c) (ctx_height c) (ctx_pix_fmt c) 1 x))),
      video_dst_linesize =
        snd (snd (fst (av_image_alloc L (ctx_width c) (ctx_height c) (ctx_pix_fmt c) 1 x))),
      video_dst_bufsize =
        fst (fst (av_image_alloc L (ctx_width c) (ctx_height c) (ctx_pix_fmt c) 1 x))\<rparr>"

text \<open>A picture of the geometry the globals hold.\<close>

definition fits :: "globals \<Rightarrow> AVFrame \<Rightarrow> bool" where
  "fits g fr =
     (frame_width fr = width g \<and> frame_height fr = height g \<and> frame_format fr = pix_fmt g)"

text \<open>
  The repacked picture: the bytes of the image buffer of the globals \<open>g\<close>, as many as its
  size says, once av_image_copy has copied the picture \<open>fr\<close> into it in the library
  state \<open>x\<close>.
\<close>

definition repacked :: "'x libav \<Rightarrow> globals \<Rightarrow> AVFrame \<times> 'x \<Rightarrow> byte list" where
  "repacked L g = (\<lambda>(fr, x).
     map (peek L (av_image_copy L (video_dst_data g) (video_dst_linesize g) fr
                    (pix_fmt g) (width g) (height g) x))
       [video_dst_data g 0 ..< video_dst_data g 0 + size_t_of_int (video_dst_bufsize g)])"

text \<open>
  A picture and the library state that some successful call of avcodec_decode_video2
  on the context \<open>c\<close> gave, with the flag set.
\<close>

definition decoded :: "'x libav \<Rightarrow> AVCodecContext \<Rightarrow> AVFrame \<times> 'x \<Rightarrow> bool" where
  "decoded L c = (\<lambda>(fr, x).
     \<exists>f p x0 r got. avcodec_decode_video2 L c f p x0 = ((r, got, fr), x) \<and> 0 \<le> r \<and> got \<noteq> 0)"

text \<open>
  The destination file holds whole pictures and nothing else: as many as the frame
  count says, each a decoded picture of the geometry of the globals, repacked.
\<close>

definition whole_frames :: "'x libav \<Rightarrow> AVCodecContext \<Rightarrow> 'x state \<Rightarrow> bool" where
  "whole_frames L c s =
     (\<exists>ys. int (length ys) = frame_count s \<and>
        (\<forall>y \<in> set ys. decoded L c y \<and> fits (glob s) (fst y)) \<and>
        dst_file s = concat (map (repacked L (glob s)) ys))"

text \<open>A successful av_read_frame, and a trace in which one follows a failed decode call.\<close>

fun is_read :: "event \<Rightarrow> bool" where
  "is_read (ReadFrame r) = (0 \<le> r)"
| "is_read e = False"

fun read_after_error :: "event list \<Rightarrow> bool" where
  "read_after_error [] = False"
| "read_after_error (Decode t p r g # es) = ((r < 0 \<and> list_ex is_read es) \<or> read_after_error es)"
| "read_after_error (e # es) = read_after_error es"

section \<open>A scripted library, for running the model\<close>

text \<open>
  The library state of the examples: the packets the container still holds and the
  answers the decoder will give, call by call.
\<close>

record script =
  packets :: "AVPacket list"
  answers :: "(int \<times> int \<times> AVFrame) list"

definition picture :: "int \<Rightarrow> int \<Rightarrow> AVFrame" where
  "picture w h =
     \<lparr>frame_width = w, frame_height = h, frame_format = 0, nb_samples = 4,
      extended_data0 = 64, frame_buf = True\<rparr>"

definition answer ::
  "AVPacket \<Rightarrow> 'a script_scheme \<Rightarrow> (int \<times> int \<times> AVFrame) \<times> 'a script_scheme" where
  "answer p x =
     (case answers x of
        [] \<Rightarrow> ((pkt_size p, 0, frame_defaults), x)
      | a # as \<Rightarrow> (a, x\<lparr>answers := as\<rparr>))"

text \<open>
  A library in which every set-up call succeeds, the container has one stream with the
  context \<open>ctx\<close>, a picture takes one byte per pixel and memory is all zero.
\<close>

definition scripted :: "AVCodecContext \<Rightarrow> 'a script_scheme libav" where
  "scripted ctx =
     \<lparr>av_dict_set = (\<lambda>k v x. (0, x)),
      av_find_input_format = (\<lambda>f x. (True, x)),
      avformat_open_input = (\<lambda>f x. (0, x)),
      avformat_find_stream_info = (\<lambda>x. (0, x)),
      streams = (\<lambda>x. [\<lparr>stream_codec = Some ctx\<rparr>]),
      avcodec_find_decoder_by_name = (\<lambda>n x. None),
      avcodec_find_decoder = (\<lambda>i x. Some \<lparr>dec_id = i\<rparr>),
      avcodec_open2 = (\<lambda>c d x. ((0, c), x)),
      fopen = (\<lambda>f x. (True, x)),
      av_image_alloc =
        (\<lambda>w h f al x. ((w * h, (\<lambda>i. if i = 0 then 64 else 0), (\<lambda>i. if i = 0 then w else 0)), x)),
      av_frame_alloc = (\<lambda>x. (True, x)),
      av_read_frame =
        (\<lambda>x. case packets x of
               [] \<Rightarrow> ((- 1, \<lparr>pkt_data = 0, pkt_size = 0\<rparr>), x)
             | p # ps \<Rightarrow> ((0, p), x\<lparr>packets := ps\<rparr>)),
      avcodec_decode_video2 = (\<lambda>c fr. answer),
      avcodec_decode_audio4 = (\<lambda>c fr. answer),
      avcodec_decode_subtitle2 =
        (\<lambda>c p x. case answer p x of ((r, g, fr), x') \<Rightarrow> ((r, g, \<lparr>rects = []\<rparr>), x')),
      av_image_copy = (\<lambda>d l fr f w h x. x),
      av_get_bytes_per_sample = (\<lambda>f. 2),
      AFL_LOOP = (\<lambda>n x. (False, x)),
      lib_void = (\<lambda>n x. x),
      peek = (\<lambda>x p. 0)\<rparr>"

definition video_ctx :: AVCodecContext where
  "video_ctx =
     \<lparr>codec_type = AVMEDIA_TYPE_VIDEO, codec_id = 13, ctx_width = 2, ctx_height = 2,
      ctx_pix_fmt = 0\<rparr>"

definition audio_ctx :: AVCodecContext where
  "audio_ctx = video_ctx\<lparr>codec_type := AVMEDIA_TYPE_AUDIO\<rparr>"

definition data_ctx :: AVCodecContext where
  "data_ctx = video_ctx\<lparr>codec_type := AVMEDIA_TYPE_DATA\<rparr>"

definition packet :: "nat \<Rightarrow> int \<Rightarrow> AVPacket" where
  "packet p n = \<lparr>pkt_data = p, pkt_size = n\<rparr>"

text \<open>
  The state in which the pump of a 2x2 video (4 bytes a picture) hands a packet of 10
  bytes to decode_packet, over the library state \<open>x\<close>.
\<close>

definition pumping :: "'x \<Rightarrow> 'x state" where
  "pumping x =
     (initial_state x)
       \<lparr>glob := \<lparr>width = 2, height = 2, pix_fmt = 0,
                 video_dst_data = (\<lambda>i. if i = 0 then 64 else 0),
                 video_dst_linesize = (\<lambda>i. if i = 0 then 2 else 0), video_dst_bufsize = 4\<rparr>,
        dst_open := True, pkt := packet 100 10\<rparr>"

text \<open>Runs of the whole program over the scripted library, for an \<open>argv\<close> of three.\<close>

definition argv3 :: "string list" where
  "argv3 = [''prog'', ''in'', ''out'']"

text \<open>The decoder fails on the first packet and decodes a 2x2 picture from the second.\<close>

definition two_packets :: script where
  "two_packets =
     \<lparr>packets = [packet 100 10, packet 200 10],
      answers = [(- 1, 0, frame_defaults), (10, 1, picture 2 2)]\<rparr>"

text \<open>The decoder takes the only packet and gives its picture when flushed.\<close>

definition held_back :: script where
  "held_back =
     \<lparr>packets = [packet 100 10],
      answers = [(10, 0, frame_defaults), (0, 1, picture 2 2)]\<rparr>"

text \<open>The stream was opened as 2x2 and its only picture is 4x2.\<close>

definition reshaped :: script where
  "reshaped = \<lparr>packets = [packet 100 10], answers = [(10, 1, picture 4 2)]\<rparr>"

text \<open>
  The scripted library with memory. The decoder leaves a picture in rows of 4 bytes
  from the address \<open>extended_data0\<close> on, and av_image_copy copies its \<open>w\<close> by \<open>h\<close> bytes,
  row after row, to the buffer at \<open>d 0\<close>.
\<close>

record film = script +
  mem :: "ptr \<Rightarrow> byte"

definition projector :: "AVCodecContext \<Rightarrow> film libav" where
  "projector ctx =
     (scripted ctx)
       \<lparr>av_image_copy :=
          (\<lambda>d l fr f w h x.
             x\<lparr>mem :=
                 (\<lambda>p. if d 0 \<le> p \<and> p < d 0 + nat (w * h)
                      then mem x (extended_data0 fr + 4 * ((p - d 0) div nat w) +
                                  (p - d 0) mod nat w)
                      else mem x p)\<rparr>),
        peek := mem\<rparr>"

definition picture_at :: "ptr \<Rightarrow> AVFrame" where
  "picture_at p = (picture 2 2)\<lparr>extended_data0 := p\<rparr>"

text \<open>
  Two packets with a 2x2 picture each and a third picture given when flushed, over a
  memory in which every byte holds its address.
\<close>

definition three_pictures :: film where
  "three_pictures =
     \<lparr>packets = [packet 100 10, packet 200 10],
      answers = [(10, 1, picture_at 16), (10, 1, picture_at 32), (0, 1, picture_at 48)],
      mem = of_nat\<rparr>"

section \<open>Basic facts\<close>

lemma emit_simps [simp]:
  "trace (emit e s) = trace s @ [e]"
  "glob (emit e s) = glob s"
  "ret (emit e s) = ret s"
  "dst_open (emit e s) = dst_open s"
  "dst_file (emit e s) = dst_file s"
  "frame (emit e s) = frame s"
  "got_frame (emit e s) = got_frame s"
  "frame_count (emit e s) = frame_count s"
  "pkt (emit e s) = pkt s"
  "ext (emit e s) = ext s"
  by (simp_all add: emit_def)

lemma void_simps [simp]:
  "trace (void L n s) = trace s @ [Call n]"
  "glob (void L n s) = glob s"
  "ret (void L n s) = ret s"
  "dst_open (void L n s) = dst_open s"
  "dst_file (void L n s) = dst_file s"
  "frame (void L n s) = frame s"
  "got_frame (void L n s) = got_frame s"
  "frame_count (void L n s) = frame_count s"
  "pkt (void L n s) = pkt s"
  "ext (void L n s) = lib_void L n (ext s)"
  by (simp_all add: void_def)

lemma fwrite_simps [simp]:
  "trace (fwrite L p n s) = trace s"
  "glob (fwrite L p n s) = glob s"
  "ret (fwrite L p n s) = ret s"
  "dst_open (fwrite L p n s) = dst_open s"
  "dst_file (fwrite L p n s) = dst_file s @ map (peek L (ext s)) [p ..< p + n]"
  "frame (fwrite L p n s) = frame s"
  "got_frame (fwrite L p n s) = got_frame s"
  "frame_count (fwrite L p n s) = frame_count s"
  "pkt (fwrite L p n s) = pkt s"
  "ext (fwrite L p n s) = ext s"
  by (simp_all add: fwrite_def)

text \<open>The subtitle dump only appends to the destination file.\<close>

lemma appends_refl: "\<exists>bs. s = s\<lparr>dst_file := dst_file s @ bs\<rparr>"
  by (rule exI [where x = "[]"]) simp

lemma fold_appends:
  assumes "\<And>x s. \<exists>bs. f x s = s\<lparr>dst_file := dst_file s @ bs\<rparr>"
  shows "\<exists>bs. fold f xs s = s\<lparr>dst_file := dst_file s @ bs\<rparr>"
proof (induction xs arbitrary: s)
  case Nil
  show ?case by (simp only: fold.simps id_apply) (rule appends_refl)
next
  case (Cons x xs)
  obtain b1 where b1: "f x s = s\<lparr>dst_file := dst_file s @ b1\<rparr>"
    using assms by blast
  obtain b2 where b2: "fold f xs (f x s) = (f x s)\<lparr>dst_file := dst_file (f x s) @ b2\<rparr>"
    using Cons.IH by blast
  have "fold f (x # xs) s = s\<lparr>dst_file := dst_file s @ (b1 @ b2)\<rparr>"
    using b2 by (simp add: b1)
  then show ?case by blast
qed

lemma fputs_dst_appends: "\<exists>bs. fputs_dst str s = s\<lparr>dst_file := dst_file s @ bs\<rparr>"
  by (auto simp: fputs_dst_def)

lemma dump_pixel_appends: "\<exists>bs. dump_pixel L r j k l s = s\<lparr>dst_file := dst_file s @ bs\<rparr>"
  unfolding dump_pixel_def by (rule fputs_dst_appends)

lemma appends_trans:
  assumes "\<exists>bs. s1 = s\<lparr>dst_file := dst_file s @ bs\<rparr>"
    and "\<exists>bs. s2 = s1\<lparr>dst_file := dst_file s1 @ bs\<rparr>"
  shows "\<exists>bs. s2 = s\<lparr>dst_file := dst_file s @ bs\<rparr>"
proof -
  obtain b1 where b1: "s1 = s\<lparr>dst_file := dst_file s @ b1\<rparr>" using assms(1) by blast
  obtain b2 where b2: "s2 = s1\<lparr>dst_file := dst_file s1 @ b2\<rparr>" using assms(2) by blast
  have "s2 = s\<lparr>dst_file := dst_file s @ (b1 @ b2)\<rparr>" by (simp add: b1 b2)
  then show ?thesis by blast
qed

lemma dump_row_appends: "\<exists>bs. dump_row L r j k s = s\<lparr>dst_file := dst_file s @ bs\<rparr>"
  unfolding dump_row_def
  by (rule appends_trans [OF fold_appends [where f = "dump_pixel L r j k", OF dump_pixel_appends]
        fputs_dst_appends])

lemma dump_plane_appends: "\<exists>bs. dump_plane L r j s = s\<lparr>dst_file := dst_file s @ bs\<rparr>"
proof (cases "pict_linesize r j \<noteq> 0")
  case True
  then show ?thesis
    unfolding dump_plane_def
    using appends_trans [OF fputs_dst_appends
        fold_appends [where f = "dump_row L r j", OF dump_row_appends]]
    by simp
next
  case False
  then have "dump_plane L r j s = s" by (simp add: dump_plane_def)
  then show ?thesis by (simp only:) (rule appends_refl)
qed

lemma dump_rect_appends: "\<exists>bs. dump_rect L r s = s\<lparr>dst_file := dst_file s @ bs\<rparr>"
  unfolding dump_rect_def
  by (rule appends_trans [OF fputs_dst_appends
        fold_appends [where f = "dump_plane L r", OF dump_plane_appends]])

lemma dump_rects_appends:
  "\<exists>bs. fold (dump_rect L) rs s = s\<lparr>dst_file := dst_file s @ bs\<rparr>"
  by (rule fold_appends [where f = "dump_rect L", OF dump_rect_appends])

lemma dump_rects_simps [simp]:
  "trace (fold (dump_rect L) rs s) = trace s"
  "glob (fold (dump_rect L) rs s) = glob s"
  "ret (fold (dump_rect L) rs s) = ret s"
  "dst_open (fold (dump_rect L) rs s) = dst_open s"
  "frame (fold (dump_rect L) rs s) = frame s"
  "got_frame (fold (dump_rect L) rs s) = got_frame s"
  "frame_count (fold (dump_rect L) rs s) = frame_count s"
  "pkt (fold (dump_rect L) rs s) = pkt s"
  "ext (fold (dump_rect L) rs s) = ext s"
proof -
  obtain bs where "fold (dump_rect L) rs s = s\<lparr>dst_file := dst_file s @ bs\<rparr>"
    using dump_rects_appends by blast
  then show "trace (fold (dump_rect L) rs s) = trace s"
  "glob (fold (dump_rect L) rs s) = glob s"
  "ret (fold (dump_rect L) rs s) = ret s"
  "dst_open (fold (dump_rect L) rs s) = dst_open s"
  "frame (fold (dump_rect L) rs s) = frame s"
  "got_frame (fold (dump_rect L) rs s) = got_frame s"
  "frame_count (fold (dump_rect L) rs s) = frame_count s"
  "pkt (fold (dump_rect L) rs s) = pkt s"
  "ext (fold (dump_rect L) rs s) = ext s" by simp_all
qed

lemma av_frame_unref_simps [simp]:
  "trace (av_frame_unref L s) = trace s @ [Call ''av_frame_unref'']"
  "glob (av_frame_unref L s) = glob s"
  "ret (av_frame_unref L s) = ret s"
  "dst_open (av_frame_unref L s) = dst_open s"
  "dst_file (av_frame_unref L s) = dst_file s"
  "frame (av_frame_unref L s) = frame_defaults"
  "got_frame (av_frame_unref L s) = got_frame s"
  "frame_count (av_frame_unref L s) = frame_count s"
  "pkt (av_frame_unref L s) = pkt s"
  by (simp_all add: av_frame_unref_def)

text \<open>What decode_packet leaves alone.\<close>

lemma decode_packet_frame:
  "glob (snd (decode_packet L c s)) = glob s \<and> pkt (snd (decode_packet L c s)) = pkt s \<and>
   ret (snd (decode_packet L c s)) = ret s \<and> dst_open (snd (decode_packet L c s)) = dst_open s"
  by (simp add: decode_packet_def decode_video_def decode_audio_def decode_subtitle_def leave_def
      Let_def split: prod.splits)

lemma decode_packet_trace:
  "\<exists>evs. trace (snd (decode_packet L c s)) = trace s @ evs \<and>
     (mismatch_msg \<notin> set evs \<longrightarrow>
        frame_count (snd (decode_packet L c s)) = frame_count s + int (length (filter produced evs)))"
  by (simp add: decode_packet_def decode_video_def decode_audio_def decode_subtitle_def leave_def
      Let_def mismatch_msg_def split: prod.splits)

lemma counted_refl: "counted s s"
  by (simp add: counted_def)

lemma counted_trans: "counted s s1 \<Longrightarrow> counted s1 s2 \<Longrightarrow> counted s s2"
  by (auto simp: counted_def)

lemma counted_decode: "counted s (snd (decode_packet L c s))"
  unfolding counted_def by (rule decode_packet_trace)

lemma counted_emit:
  "\<not> produced e \<Longrightarrow> counted s (emit e s)"
  by (simp add: counted_def)

lemma counted_void: "counted s (void L n s)"
  by (simp add: counted_def)

lemma counted_upd:
  "trace s1 = trace s \<Longrightarrow> frame_count s1 = frame_count s \<Longrightarrow> counted s s1"
  by (simp add: counted_def)

lemma av_free_packet_simps [simp]:
  "trace (av_free_packet L s) = trace s @ [Call ''av_free_packet'']"
  "glob (av_free_packet L s) = glob s"
  "ret (av_free_packet L s) = ret s"
  "dst_open (av_free_packet L s) = dst_open s"
  "dst_file (av_free_packet L s) = dst_file s"
  "frame (av_free_packet L s) = frame s"
  "got_frame (av_free_packet L s) = got_frame s"
  "frame_count (av_free_packet L s) = frame_count s"
  "pkt (av_free_packet L s) = \<lparr>pkt_data = 0, pkt_size = 0\<rparr>"
  by (simp_all add: av_free_packet_def)

text \<open>A property that the steps of the loops keep is kept by the loops.\<close>

lemma packet_loop_keeps:
  assumes dec: "\<And>s. P s \<Longrightarrow> P (snd (decode_packet L c s))"
    and upd: "\<And>s p. P s \<Longrightarrow> P (s\<lparr>pkt := p\<rparr>)"
  shows "P s \<Longrightarrow> packet_loop n L c s = Some s' \<Longrightarrow> P s'"
proof (induction n arbitrary: s)
  case 0
  then show ?case by simp
next
  case (Suc n)
  obtain d s1 where d: "decode_packet L c s = (d, s1)" by (cases "decode_packet L c s")
  have p1: "P s1" using dec [OF Suc.prems(1)] d by simp
  show ?case
  proof (cases "d < 0")
    case True
    with Suc.prems(2) d have "s' = s1" by simp
    with p1 show ?thesis by simp
  next
    case False
    let ?s2 = "s1\<lparr>pkt := \<lparr>pkt_data = pkt_data (pkt s1) + nat d, pkt_size = pkt_size (pkt s1) - d\<rparr>\<rparr>"
    have p2: "P ?s2" by (rule upd [OF p1])
    show ?thesis
    proof (cases "pkt_size (pkt s1) - d > 0")
      case True
      with False Suc.prems(2) d have "packet_loop n L c ?s2 = Some s'" by (simp add: Let_def)
      with Suc.IH p2 show ?thesis by blast
    next
      case b: False
      with False Suc.prems(2) d have "s' = ?s2" by (simp add: Let_def)
      with p2 show ?thesis by simp
    qed
  qed
qed

lemma read_loop_keeps:
  assumes dec: "\<And>s. P s \<Longrightarrow> P (snd (decode_packet L c s))"
    and upd: "\<And>s p. P s \<Longrightarrow> P (s\<lparr>pkt := p\<rparr>)"
    and rd: "\<And>s r p x. P s \<Longrightarrow> P (emit (ReadFrame r) (s\<lparr>ext := x, pkt := p\<rparr>))"
    and fr: "\<And>s. P s \<Longrightarrow> P (av_free_packet L s)"
  shows "P s \<Longrightarrow> read_loop n L c s = Some s' \<Longrightarrow> P s'"
proof (induction n arbitrary: s)
  case 0
  then show ?case by simp
next
  case (Suc n)
  obtain r p x where r: "av_read_frame L (ext s) = ((r, p), x)"
    by (metis surj_pair)
  let ?s1 = "emit (ReadFrame r) (s\<lparr>ext := x, pkt := p\<rparr>)"
  have p1: "P ?s1" by (rule rd [OF Suc.prems(1)])
  show ?case
  proof (cases "r \<ge> 0")
    case True
    with Suc.prems(2) r obtain s2 where s2: "packet_loop n L c ?s1 = Some s2"
      and rest: "read_loop n L c (av_free_packet L s2) = Some s'"
      by (auto split: option.splits)
    have "P s2" by (rule packet_loop_keeps [of P, OF dec upd p1 s2])
    then have "P (av_free_packet L s2)" by (rule fr)
    with Suc.IH rest show ?thesis by blast
  next
    case False
    with Suc.prems(2) r have "s' = ?s1" by simp
    with p1 show ?thesis by simp
  qed
qed

lemma flush_loop_keeps:
  assumes dec: "\<And>s. P s \<Longrightarrow> P (snd (decode_packet L c s))"
  shows "P s \<Longrightarrow> flush_loop n L c s = Some s' \<Longrightarrow> P s'"
proof (induction n arbitrary: s)
  case 0
  then show ?case by simp
next
  case (Suc n)
  have p1: "P (snd (decode_packet L c s))" by (rule dec [OF Suc.prems(1)])
  show ?case
  proof (cases "got_frame (snd (decode_packet L c s)) \<noteq> 0")
    case True
    with Suc.prems(2) have "flush_loop n L c (snd (decode_packet L c s)) = Some s'"
      by (simp add: split_def)
    with Suc.IH p1 show ?thesis by blast
  next
    case False
    with Suc.prems(2) have "s' = snd (decode_packet L c s)" by (simp add: split_def)
    with p1 show ?thesis by simp
  qed
qed

section \<open>Running the model\<close>

lemma take_INT_MAX_single: "take INT_MAX [x] = [x]"
  by (simp add: INT_MAX_def)

text \<open>
  The product of line 103 is the mathematical one as long as it fits in an \<open>int\<close>; a
  frame of \<open>2 ^ 30\<close> samples of 4 bytes wraps to 0 bytes.
\<close>

lemma wrap_int_id: "- (2 ^ 31) \<le> n \<Longrightarrow> n < 2 ^ 31 \<Longrightarrow> wrap_int n = n"
  by (simp add: wrap_int_def)

lemma wrap_int_overflows: "size_t_of_int (wrap_int (2 ^ 30 * 4)) = 0"
  by (simp add: wrap_int_def size_t_of_int_def)

text \<open>
  The definitions a run unfolds. With \<open>let_weak_cong\<close> and \<open>prod.case_cong_weak\<close> the
  simplifier evaluates a concrete run call by call, as the program runs.
\<close>

lemmas run_defs = main_def arguments_def usage_def register_all_def pass_def prepare_def
  then_do_def set_whitelists_def open_input_def select_stream_def open_output_def
  alloc_image_def alloc_frame_def begin_pass_def reset_globals_def dict_set_def
  open_codec_context_def take_INT_MAX_single decode_packet_def decode_video_def
  decode_audio_def decode_subtitle_def leave_def cleanup_def av_free_packet_def
  av_frame_unref_def void_def emit_def fwrite_def size_t_of_int_def wrap_int_def
  frame_defaults_def
  AV_PIX_FMT_NONE_def initial_state_def Let_def
  scripted_def answer_def picture_def video_ctx_def packet_def pumping_def

section \<open>decode_packet\<close>

text \<open>
  C10. If the codec type of the decoder context is none of video, audio and subtitle,
  decode_packet sets the produced-unit flag to 0 and returns -1; nothing else of the
  state changes: the destination file, the frame and the frame count are as before,
  and no library call is made.
\<close>

theorem C10_other_media_type:
  assumes "codec_type c \<noteq> AVMEDIA_TYPE_VIDEO"
    and "codec_type c \<noteq> AVMEDIA_TYPE_AUDIO"
    and "codec_type c \<noteq> AVMEDIA_TYPE_SUBTITLE"
  shows "decode_packet L c s = (- 1, s\<lparr>got_frame := 0\<rparr>) \<and>
         got_frame (snd (decode_packet L c s)) = 0 \<and>
         dst_file (snd (decode_packet L c s)) = dst_file s \<and>
         frame (snd (decode_packet L c s)) = frame s \<and>
         frame_count (snd (decode_packet L c s)) = frame_count s \<and>
         trace (snd (decode_packet L c s)) = trace s"
  using assms by (simp add: decode_packet_def leave_def)

theorem C10_other_media_type_witness:
  "decode_packet (scripted data_ctx) data_ctx
     ((pumping \<lparr>packets = [], answers = [(10, 1, picture 2 2)]\<rparr>)\<lparr>got_frame := 1\<rparr>) =
   (- 1, pumping \<lparr>packets = [], answers = [(10, 1, picture 2 2)]\<rparr>)"
proof -
  have t: "codec_type data_ctx \<noteq> AVMEDIA_TYPE_VIDEO" "codec_type data_ctx \<noteq> AVMEDIA_TYPE_AUDIO"
    "codec_type data_ctx \<noteq> AVMEDIA_TYPE_SUBTITLE"
    by (simp_all add: data_ctx_def video_ctx_def)
  show ?thesis
    using C10_other_media_type [OF t, of "scripted data_ctx"
        "(pumping \<lparr>packets = [], answers = [(10, 1, picture 2 2)]\<rparr>)\<lparr>got_frame := 1\<rparr>"]
    by (simp add: pumping_def initial_state_def)
qed

text \<open>
  C3. In the video branch, when the decoder succeeds and produces a frame whose width,
  height or pixel format differs from the values in the globals (captured when the
  stream was opened), decode_packet returns -1 and writes nothing to the destination
  file; the frame is not counted either.
\<close>

theorem C3_geometry_mismatch:
  assumes "codec_type c = AVMEDIA_TYPE_VIDEO"
    and "avcodec_decode_video2 L c (frame s) (pkt s) (ext s) = ((r, got, fr), x)"
    and "0 \<le> r" and "got \<noteq> 0"
    and "frame_width fr \<noteq> width (glob s) \<or> frame_height fr \<noteq> height (glob s) \<or>
         frame_format fr \<noteq> pix_fmt (glob s)"
  shows "fst (decode_packet L c s) = - 1 \<and> fst (decode_packet L c s) < 0 \<and>
         dst_file (snd (decode_packet L c s)) = dst_file s \<and>
         frame_count (snd (decode_packet L c s)) = frame_count s"
  using assms by (auto simp add: decode_packet_def decode_video_def)

theorem C3_geometry_mismatch_witness:
  "fst (decode_packet (scripted video_ctx) video_ctx
          (pumping \<lparr>packets = [], answers = [(10, 1, picture 4 2)]\<rparr>)) = - 1 \<and>
   dst_file (snd (decode_packet (scripted video_ctx) video_ctx
          (pumping \<lparr>packets = [], answers = [(10, 1, picture 4 2)]\<rparr>))) = []"
proof -
  let ?s = "pumping \<lparr>packets = [], answers = [(10, 1, picture 4 2)]\<rparr>"
  have 1: "codec_type video_ctx = AVMEDIA_TYPE_VIDEO" by (simp add: video_ctx_def)
  have 2: "avcodec_decode_video2 (scripted video_ctx) video_ctx (frame ?s) (pkt ?s) (ext ?s) =
           ((10, 1, picture 4 2), \<lparr>packets = [], answers = []\<rparr>)"
    by (simp add: scripted_def answer_def pumping_def initial_state_def)
  have 3: "frame_width (picture 4 2) \<noteq> width (glob ?s) \<or>
           frame_height (picture 4 2) \<noteq> height (glob ?s) \<or>
           frame_format (picture 4 2) \<noteq> pix_fmt (glob ?s)"
    by (simp add: picture_def pumping_def initial_state_def)
  have "dst_file ?s = []" by (simp add: pumping_def initial_state_def)
  with C3_geometry_mismatch [OF 1 2 _ _ 3] show ?thesis by simp
qed

text \<open>What the audio branch returns, from what the decoder reported.\<close>

lemma decode_audio_result:
  assumes "codec_type c = AVMEDIA_TYPE_AUDIO"
    and "avcodec_decode_audio4 L c (frame s) (pkt s) (ext s) = ((r0, got, fr), x)"
  shows "fst (decode_packet L c s) = (if r0 < 0 then r0 else min r0 (pkt_size (pkt s)))"
  using assms by (simp add: decode_packet_def decode_audio_def leave_def Let_def)

lemma decode_audio_bound:
  assumes "codec_type c = AVMEDIA_TYPE_AUDIO" and "0 \<le> fst (decode_packet L c s)"
  shows "fst (decode_packet L c s) \<le> pkt_size (pkt s)"
proof -
  obtain r0 got fr x where a: "avcodec_decode_audio4 L c (frame s) (pkt s) (ext s) = ((r0, got, fr), x)"
    by (metis surj_pair)
  show ?thesis
    using assms(2) unfolding decode_audio_result [OF assms(1) a]
    by (simp split: if_splits)
qed

text \<open>
  So the pump of an audio stream never steps past the end of the packet: the remaining
  size stays between 0 and the packet's size, and the end of the packet stays where it
  was.
\<close>

lemma audio_pump_in_packet:
  assumes "codec_type c = AVMEDIA_TYPE_AUDIO"
  shows "0 \<le> pkt_size (pkt s) \<Longrightarrow> packet_loop n L c s = Some s' \<Longrightarrow>
         0 \<le> pkt_size (pkt s') \<and> pkt_size (pkt s') \<le> pkt_size (pkt s) \<and>
         int (pkt_data (pkt s')) + pkt_size (pkt s') = int (pkt_data (pkt s)) + pkt_size (pkt s)"
proof (induction n arbitrary: s)
  case 0
  then show ?case by simp
next
  case (Suc n)
  obtain d s1 where d: "decode_packet L c s = (d, s1)" by (cases "decode_packet L c s")
  have same: "pkt s1 = pkt s" using decode_packet_frame [of L c s] d by simp
  show ?case
  proof (cases "d < 0")
    case True
    with Suc.prems d have "s' = s1" by simp
    with same Suc.prems(1) show ?thesis by simp
  next
    case False
    then have le: "d \<le> pkt_size (pkt s)"
      using decode_audio_bound [OF assms, of L s] d by simp
    let ?s2 = "s1\<lparr>pkt := \<lparr>pkt_data = pkt_data (pkt s1) + nat d, pkt_size = pkt_size (pkt s1) - d\<rparr>\<rparr>"
    have s2: "0 \<le> pkt_size (pkt ?s2)" "pkt_size (pkt ?s2) \<le> pkt_size (pkt s)"
      "int (pkt_data (pkt ?s2)) + pkt_size (pkt ?s2) = int (pkt_data (pkt s)) + pkt_size (pkt s)"
      using False le same by simp_all
    show ?thesis
    proof (cases "pkt_size (pkt s1) - d > 0")
      case True
      with False Suc.prems(2) d have "packet_loop n L c ?s2 = Some s'" by (simp add: Let_def)
      from Suc.IH [OF s2(1) this] s2 show ?thesis by simp
    next
      case b: False
      with False Suc.prems(2) d have "s' = ?s2" by (simp add: Let_def)
      with s2 show ?thesis by simp
    qed
  qed
qed

text \<open>
  C4. In the audio branch the byte count decode_packet returns is never more than the
  size of the packet it was given: what the decoder reports is clamped to the packet
  size, so the pump, which advances the data pointer and shrinks the size by that
  count, stays inside the packet.
\<close>

theorem C4_audio_clamp:
  assumes "codec_type c = AVMEDIA_TYPE_AUDIO"
  shows "(0 \<le> fst (decode_packet L c s) \<longrightarrow> fst (decode_packet L c s) \<le> pkt_size (pkt s)) \<and>
         (\<forall>r0 got fr x.
            avcodec_decode_audio4 L c (frame s) (pkt s) (ext s) = ((r0, got, fr), x) \<longrightarrow> 0 \<le> r0 \<longrightarrow>
            fst (decode_packet L c s) = min r0 (pkt_size (pkt s))) \<and>
         (\<forall>n s'. 0 \<le> pkt_size (pkt s) \<longrightarrow> packet_loop n L c s = Some s' \<longrightarrow>
            0 \<le> pkt_size (pkt s') \<and>
            int (pkt_data (pkt s')) + pkt_size (pkt s') = int (pkt_data (pkt s)) + pkt_size (pkt s))"
proof (intro conjI allI impI)
  assume "0 \<le> fst (decode_packet L c s)"
  then show "fst (decode_packet L c s) \<le> pkt_size (pkt s)"
    by (rule decode_audio_bound [OF assms])
next
  fix r0 got fr x
  assume a: "avcodec_decode_audio4 L c (frame s) (pkt s) (ext s) = ((r0, got, fr), x)"
    and "0 \<le> r0"
  then show "fst (decode_packet L c s) = min r0 (pkt_size (pkt s))"
    by (simp add: decode_audio_result [OF assms a])
next
  fix n s'
  assume "0 \<le> pkt_size (pkt s)" and "packet_loop n L c s = Some s'"
  from audio_pump_in_packet [OF assms this]
  show "0 \<le> pkt_size (pkt s')"
    and "int (pkt_data (pkt s')) + pkt_size (pkt s') = int (pkt_data (pkt s)) + pkt_size (pkt s)"
    by simp_all
qed

theorem C4_audio_clamp_witness:
  "fst (decode_packet (scripted audio_ctx) audio_ctx
          (pumping \<lparr>packets = [], answers = [(25, 1, picture 2 2)]\<rparr>)) = 10 \<and>
   pkt_size (pkt (pumping \<lparr>packets = [], answers = [(25, 1, picture 2 2)]\<rparr>)) = 10 \<and>
   map_option pkt (packet_loop (Suc 0) (scripted audio_ctx) audio_ctx
          (pumping \<lparr>packets = [], answers = [(25, 1, picture 2 2)]\<rparr>)) =
     Some \<lparr>pkt_data = 110, pkt_size = 0\<rparr>"
proof -
  let ?s = "pumping \<lparr>packets = [], answers = [(25, 1, picture 2 2)]\<rparr>"
  have 1: "codec_type audio_ctx = AVMEDIA_TYPE_AUDIO" by (simp add: audio_ctx_def)
  have 2: "avcodec_decode_audio4 (scripted audio_ctx) audio_ctx (frame ?s) (pkt ?s) (ext ?s) =
           ((25, 1, picture 2 2), \<lparr>packets = [], answers = []\<rparr>)"
    by (simp add: scripted_def answer_def pumping_def initial_state_def)
  have 3: "pkt_size (pkt ?s) = 10" by (simp add: pumping_def initial_state_def packet_def)
  have "fst (decode_packet (scripted audio_ctx) audio_ctx ?s) = min 25 (pkt_size (pkt ?s))"
    using C4_audio_clamp [OF 1, of "scripted audio_ctx" ?s] 2 by simp
  moreover have "map_option pkt (packet_loop (Suc 0) (scripted audio_ctx) audio_ctx ?s) =
     Some \<lparr>pkt_data = 110, pkt_size = 0\<rparr>"
    by (simp add: run_defs audio_ctx_def cong: let_weak_cong prod.case_cong_weak)
  ultimately show ?thesis using 3 by simp
qed

section \<open>The release of the frame\<close>

text \<open>
  On every path of decode_packet that reaches line 165, a produced unit is followed by
  av_frame_unref: when the call does not return a negative value and the flag is set,
  the frame is back to its defaults.
\<close>

lemma decode_packet_releases:
  assumes "0 \<le> fst (decode_packet L c s)" and "got_frame (snd (decode_packet L c s)) \<noteq> 0"
  shows "frame (snd (decode_packet L c s)) = frame_defaults"
  using assms
  by (simp add: decode_packet_def decode_video_def decode_audio_def decode_subtitle_def leave_def
      Let_def split: prod.splits if_splits)

text \<open>
  C8 fails on the early return of line 71. The decoder answers a 4x2 picture to a
  stream opened as 2x2: decode_packet returns -1 with the flag set, av_frame_unref is
  not called and the frame still holds its buffers.
\<close>

theorem C8_mismatch_keeps_frame:
  "fst (decode_packet (scripted video_ctx) video_ctx
          (pumping \<lparr>packets = [], answers = [(10, 1, picture 4 2)]\<rparr>)) = - 1 \<and>
   got_frame (snd (decode_packet (scripted video_ctx) video_ctx
          (pumping \<lparr>packets = [], answers = [(10, 1, picture 4 2)]\<rparr>))) = 1 \<and>
   frame_buf (frame (snd (decode_packet (scripted video_ctx) video_ctx
          (pumping \<lparr>packets = [], answers = [(10, 1, picture 4 2)]\<rparr>)))) \<and>
   Call ''av_frame_unref'' \<notin> set (trace (snd (decode_packet (scripted video_ctx) video_ctx
          (pumping \<lparr>packets = [], answers = [(10, 1, picture 4 2)]\<rparr>))))"
  by (simp add: run_defs cong: let_weak_cong prod.case_cong_weak)

section \<open>The flush loop and the end of the pump\<close>

lemma funpow_shift: "(f ^^ Suc j) (f x) = (f ^^ Suc (Suc j)) x"
  by (metis funpow_swap1 funpow.simps(2) o_apply)

text \<open>
  The flush returns exactly when some call reports no unit: its result is the state
  after the first such call, and every call before it reported a unit.
\<close>

lemma flush_loop_iff:
  "flush_loop n L c s = Some s' \<longleftrightarrow>
     (\<exists>k<n. s' = (decode_step L c ^^ Suc k) s \<and> got_frame s' = 0 \<and>
        (\<forall>i<k. got_frame ((decode_step L c ^^ Suc i) s) \<noteq> 0))"
proof (induction n arbitrary: s)
  case 0
  then show ?case by simp
next
  case (Suc n)
  let ?D = "decode_step L c"
  show ?case
  proof (cases "got_frame (?D s) = 0")
    case True
    then have l: "flush_loop (Suc n) L c s = Some (?D s)"
      by (simp add: split_def decode_step_def)
    have "(\<exists>k<Suc n. s' = (?D ^^ Suc k) s \<and> got_frame s' = 0 \<and>
            (\<forall>i<k. got_frame ((?D ^^ Suc i) s) \<noteq> 0)) \<longleftrightarrow> s' = ?D s"
    proof
      assume "\<exists>k<Suc n. s' = (?D ^^ Suc k) s \<and> got_frame s' = 0 \<and>
            (\<forall>i<k. got_frame ((?D ^^ Suc i) s) \<noteq> 0)"
      then obtain k where k: "s' = (?D ^^ Suc k) s" "\<forall>i<k. got_frame ((?D ^^ Suc i) s) \<noteq> 0"
        by blast
      have "k = 0"
      proof (rule ccontr)
        assume "k \<noteq> 0"
        then have "0 < k" by simp
        with k(2) have "got_frame ((?D ^^ Suc 0) s) \<noteq> 0" by blast
        with True show False by simp
      qed
      with k(1) show "s' = ?D s" by simp
    next
      assume "s' = ?D s"
      with True have "s' = (?D ^^ Suc 0) s \<and> got_frame s' = 0 \<and>
          (\<forall>i<0. got_frame ((?D ^^ Suc i) s) \<noteq> 0)" by simp
      then show "\<exists>k<Suc n. s' = (?D ^^ Suc k) s \<and> got_frame s' = 0 \<and>
            (\<forall>i<k. got_frame ((?D ^^ Suc i) s) \<noteq> 0)" by blast
    qed
    with l show ?thesis by auto
  next
    case False
    then have l: "flush_loop (Suc n) L c s = flush_loop n L c (?D s)"
      by (simp add: split_def decode_step_def)
    have shift: "\<And>j. (?D ^^ Suc j) (?D s) = (?D ^^ Suc (Suc j)) s"
      by (rule funpow_shift)
    have "(\<exists>k<Suc n. s' = (?D ^^ Suc k) s \<and> got_frame s' = 0 \<and>
            (\<forall>i<k. got_frame ((?D ^^ Suc i) s) \<noteq> 0)) \<longleftrightarrow>
          (\<exists>k<n. s' = (?D ^^ Suc k) (?D s) \<and> got_frame s' = 0 \<and>
            (\<forall>i<k. got_frame ((?D ^^ Suc i) (?D s)) \<noteq> 0))"
    proof
      assume "\<exists>k<Suc n. s' = (?D ^^ Suc k) s \<and> got_frame s' = 0 \<and>
            (\<forall>i<k. got_frame ((?D ^^ Suc i) s) \<noteq> 0)"
      then obtain k where k: "k < Suc n" "s' = (?D ^^ Suc k) s" "got_frame s' = 0"
        "\<forall>i<k. got_frame ((?D ^^ Suc i) s) \<noteq> 0" by blast
      have "k \<noteq> 0"
      proof
        assume "k = 0"
        with k(2) have "s' = ?D s" by simp
        with k(3) False show False by simp
      qed
      then obtain j where j: "k = Suc j" by (cases k) auto
      have "j < n" using k(1) j by simp
      moreover have "s' = (?D ^^ Suc j) (?D s)" by (simp only: k(2) j shift)
      moreover have "\<forall>i<j. got_frame ((?D ^^ Suc i) (?D s)) \<noteq> 0"
      proof (intro allI impI)
        fix i assume "i < j"
        then have "Suc i < k" using j by simp
        with k(4) have "got_frame ((?D ^^ Suc (Suc i)) s) \<noteq> 0" by blast
        then show "got_frame ((?D ^^ Suc i) (?D s)) \<noteq> 0" unfolding shift .
      qed
      ultimately show "\<exists>k<n. s' = (?D ^^ Suc k) (?D s) \<and> got_frame s' = 0 \<and>
            (\<forall>i<k. got_frame ((?D ^^ Suc i) (?D s)) \<noteq> 0)" using k(3) by blast
    next
      assume "\<exists>k<n. s' = (?D ^^ Suc k) (?D s) \<and> got_frame s' = 0 \<and>
            (\<forall>i<k. got_frame ((?D ^^ Suc i) (?D s)) \<noteq> 0)"
      then obtain j where j: "j < n" "s' = (?D ^^ Suc j) (?D s)" "got_frame s' = 0"
        "\<forall>i<j. got_frame ((?D ^^ Suc i) (?D s)) \<noteq> 0" by blast
      have "Suc j < Suc n" using j(1) by simp
      moreover have "s' = (?D ^^ Suc (Suc j)) s" by (simp only: j(2) shift)
      moreover have "\<forall>i<Suc j. got_frame ((?D ^^ Suc i) s) \<noteq> 0"
      proof (intro allI impI)
        fix i assume i: "i < Suc j"
        show "got_frame ((?D ^^ Suc i) s) \<noteq> 0"
        proof (cases i)
          case 0
          with False show ?thesis by simp
        next
          case (Suc m)
          with i have "m < j" by simp
          with j(4) have "got_frame ((?D ^^ Suc m) (?D s)) \<noteq> 0" by blast
          then show ?thesis unfolding shift Suc .
        qed
      qed
      ultimately show "\<exists>k<Suc n. s' = (?D ^^ Suc k) s \<and> got_frame s' = 0 \<and>
            (\<forall>i<k. got_frame ((?D ^^ Suc i) s) \<noteq> 0)" using j(3) by blast
    qed
    with l Suc.IH [of "?D s"] show ?thesis by simp
  qed
qed

lemma decode_steps_pkt: "pkt ((decode_step L c ^^ i) s) = pkt s"
  by (induction i) (simp_all add: decode_packet_frame decode_step_def)

lemma read_loop_ends:
  "read_loop n L c s = Some s' \<Longrightarrow> \<exists>r<0. trace s' \<noteq> [] \<and> last (trace s') = ReadFrame r"
proof (induction n arbitrary: s)
  case 0
  then show ?case by simp
next
  case (Suc n)
  obtain r p x where r: "av_read_frame L (ext s) = ((r, p), x)"
    by (metis surj_pair)
  show ?case
  proof (cases "r \<ge> 0")
    case True
    with Suc.prems r obtain s2 where "read_loop n L c (av_free_packet L s2) = Some s'"
      by (auto split: option.splits)
    with Suc.IH show ?thesis by blast
  next
    case False
    with Suc.prems r have "s' = emit (ReadFrame r) (s\<lparr>ext := x, pkt := p\<rparr>)" by simp
    with False show ?thesis by auto
  qed
qed

section \<open>The set-up\<close>

lemma begin_pass_simps [simp]:
  "trace (begin_pass s) = trace s"
  "ext (begin_pass s) = ext s"
  "glob (begin_pass s) = reset_globals"
  "ret (begin_pass s) = 0"
  "dst_open (begin_pass s) = False"
  "dst_file (begin_pass s) = []"
  "frame (begin_pass s) = frame_defaults"
  "got_frame (begin_pass s) = 0"
  "frame_count (begin_pass s) = 0"
  "pkt (begin_pass s) = \<lparr>pkt_data = 0, pkt_size = 0\<rparr>"
  by (simp_all add: begin_pass_def)

lemma dict_set_simps [simp]:
  "trace (snd (dict_set L k v s)) = trace s @ [Call ''av_dict_set'']"
  "glob (snd (dict_set L k v s)) = glob s"
  "ret (snd (dict_set L k v s)) = ret s"
  "dst_open (snd (dict_set L k v s)) = dst_open s"
  "dst_file (snd (dict_set L k v s)) = dst_file s"
  "frame (snd (dict_set L k v s)) = frame s"
  "got_frame (snd (dict_set L k v s)) = got_frame s"
  "frame_count (snd (dict_set L k v s)) = frame_count s"
  "pkt (snd (dict_set L k v s)) = pkt s"
  by (simp_all add: dict_set_def split_def Let_def)

text \<open>open_codec_context only talks to the library and to stderr.\<close>

lemma open_codec_context_frame:
  "glob (snd (open_codec_context L n s)) = glob s \<and>
   ret (snd (open_codec_context L n s)) = ret s \<and>
   dst_open (snd (open_codec_context L n s)) = dst_open s \<and>
   dst_file (snd (open_codec_context L n s)) = dst_file s \<and>
   frame (snd (open_codec_context L n s)) = frame s \<and>
   got_frame (snd (open_codec_context L n s)) = got_frame s \<and>
   frame_count (snd (open_codec_context L n s)) = frame_count s \<and>
   pkt (snd (open_codec_context L n s)) = pkt s"
  by (simp add: open_codec_context_def Let_def split_def split: option.splits)

lemma open_codec_context_counted: "counted s (snd (open_codec_context L n s))"
  by (simp add: counted_def open_codec_context_def Let_def split_def mismatch_msg_def
      split: option.splits)

lemma open_codec_context_ctx:
  "0 \<le> fst (fst (open_codec_context L n s)) \<Longrightarrow> snd (fst (open_codec_context L n s)) \<noteq> None"
  by (simp add: open_codec_context_def Let_def split_def split: option.splits)

lemma counted_events:
  "counted s s' \<longleftrightarrow>
     trace s' = trace s @ events_since s s' \<and>
     (mismatch_msg \<notin> set (events_since s s') \<longrightarrow>
        frame_count s' = frame_count s + int (length (filter produced (events_since s s'))))"
  by (auto simp: counted_def events_since_def)

lemma open_codec_context_trace:
  "trace (snd (open_codec_context L n s)) =
     trace s @ events_since s (snd (open_codec_context L n s))"
  using open_codec_context_counted [of s L n] by (simp add: counted_events)

lemma open_codec_context_events:
  "mismatch_msg \<notin> set (events_since s (snd (open_codec_context L n s)))"
  "filter produced (events_since s (snd (open_codec_context L n s))) = []"
  by (simp_all add: events_since_def open_codec_context_def Let_def split_def mismatch_msg_def
      split: option.splits)

lemma counted_step:
  assumes "counted b s" and "trace t = trace s @ evs" and "frame_count t = frame_count s"
    and "mismatch_msg \<notin> set evs" and "filter produced evs = []"
  shows "counted b t"
  using assms by (auto simp: counted_def)

lemma ready_emit:
  "ready b s \<Longrightarrow> \<not> produced e \<Longrightarrow> e \<noteq> mismatch_msg \<Longrightarrow> ready b (emit e s)"
  using counted_step [where b = b and s = s and t = "emit e s" and evs = "[e]"] by (simp add: ready_def)

lemma ready_void: "ready b s \<Longrightarrow> ready b (void L n s)"
  using counted_step [where b = b and s = s and t = "void L n s" and evs = "[Call n]"] by (simp add: ready_def mismatch_msg_def)

lemma ready_update:
  "ready b s \<Longrightarrow> ready b (s\<lparr>ext := x\<rparr>)"
  "ready b s \<Longrightarrow> ready b (s\<lparr>dst_open := opened\<rparr>)"
  "ready b s \<Longrightarrow> ready b (s\<lparr>glob := g\<rparr>)"
  "ready b s \<Longrightarrow> ready b (s\<lparr>frame := f\<rparr>)"
  by (auto simp: ready_def counted_def)

lemmas ready_intros = ready_emit ready_void ready_update

lemma ready_begin_pass: "ready (begin_pass s) (begin_pass s)"
  by (simp add: ready_def counted_refl)

lemma set_whitelists_ready:
  assumes "ready b s"
  shows "case set_whitelists L a s of
           Inl s1 \<Rightarrow> ready b s1
         | Inr s1 \<Rightarrow> ready b s1 \<and> glob s1 = glob s \<and> dst_open s1 = dst_open s"
  using assms
  by (auto simp: set_whitelists_def dict_set_def Let_def mismatch_msg_def split: prod.splits
      intro!: ready_intros)

lemma open_input_ready:
  assumes "ready b s"
  shows "case open_input L a s of
           Inl s1 \<Rightarrow> ready b s1
         | Inr s1 \<Rightarrow> ready b s1 \<and> glob s1 = glob s \<and> dst_open s1 = dst_open s"
  using assms
  by (auto simp: open_input_def Let_def mismatch_msg_def split: prod.splits option.splits
      intro!: ready_intros)

lemma open_codec_context_ready:
  assumes "ready b s"
  shows "ready b (snd (open_codec_context L n s))"
  using assms
  by (auto simp: open_codec_context_def dict_set_def Let_def mismatch_msg_def
      split: prod.splits option.splits intro!: ready_intros)

lemma select_stream_ready:
  assumes "ready b s"
  shows "case select_stream L a s of
           Inl s1 \<Rightarrow> ready b s1
         | Inr (c, s1) \<Rightarrow> ready b s1 \<and> glob s1 = glob s \<and> dst_open s1 = dst_open s"
  using open_codec_context_ready [OF assms, where L = L and n = "codec a"]
    open_codec_context_frame [where L = L and n = "codec a" and s = s]
  by (auto simp: select_stream_def Let_def mismatch_msg_def split: prod.splits option.splits
      intro!: ready_intros)

lemma open_output_ready:
  assumes "ready b s"
  shows "case open_output L a (c, s) of
           Inl s1 \<Rightarrow> ready b s1
         | Inr (c1, s1) \<Rightarrow> c1 = c \<and> ready b s1 \<and> glob s1 = glob s \<and> dst_open s1"
  using assms
  by (auto simp: open_output_def Let_def mismatch_msg_def split: prod.splits
      intro!: ready_intros)

lemma alloc_image_ready:
  assumes "ready b s"
  shows "case alloc_image L (c, s) of
           Inl s1 \<Rightarrow> ready b s1
         | Inr (c1, s1) \<Rightarrow>
             c1 = c \<and> ready b s1 \<and> dst_open s1 = dst_open s \<and>
             (if codec_type c = AVMEDIA_TYPE_VIDEO
              then 0 \<le> video_dst_bufsize (glob s1) \<and> width (glob s1) = ctx_width c \<and>
                   height (glob s1) = ctx_height c \<and> pix_fmt (glob s1) = ctx_pix_fmt c
              else glob s1 = glob s)"
  using assms
  by (auto simp: alloc_image_def Let_def mismatch_msg_def split: prod.splits
      intro!: ready_intros)

lemma alloc_frame_ready:
  assumes "ready b s"
  shows "case alloc_frame L (c, s) of
           Inl s1 \<Rightarrow> ready b s1
         | Inr (c1, s1) \<Rightarrow>
             c1 = c \<and> ready b s1 \<and> dst_open s1 = dst_open s \<and> glob s1 = glob s \<and>
             frame s1 = frame_defaults"
  using assms
  by (auto simp: alloc_frame_def Let_def mismatch_msg_def split: prod.splits
      intro!: ready_intros)

lemma then_do_cases:
  assumes "case m of Inl e \<Rightarrow> P e | Inr v \<Rightarrow> Q v"
    and "\<And>v. Q v \<Longrightarrow> case f v of Inl e \<Rightarrow> P e | Inr w \<Rightarrow> R w"
  shows "case then_do m f of Inl e \<Rightarrow> P e | Inr w \<Rightarrow> R w"
  using assms by (cases m) (auto simp: then_do_def)

text \<open>What holds when the set-up hands over to the pump, and at every \<open>goto end\<close>.\<close>

lemma prepare_facts:
  "case prepare L a s of
     Inl s1 \<Rightarrow> ready (begin_pass s) s1
   | Inr (c, s1) \<Rightarrow>
       ready (begin_pass s) s1 \<and> dst_open s1 \<and> frame s1 = frame_defaults \<and>
       (if codec_type c = AVMEDIA_TYPE_VIDEO
        then 0 \<le> video_dst_bufsize (glob s1) \<and> width (glob s1) = ctx_width c \<and>
             height (glob s1) = ctx_height c \<and> pix_fmt (glob s1) = ctx_pix_fmt c
        else glob s1 = reset_globals)"
proof -
  let ?P = "ready (begin_pass s)"
  have 1: "case set_whitelists L a (begin_pass s) of
             Inl e \<Rightarrow> ?P e | Inr v \<Rightarrow> ?P v \<and> glob v = reset_globals"
    using set_whitelists_ready [where b = "begin_pass s" and s = "begin_pass s" and L = L and a = a,
        OF ready_begin_pass] by (simp split: sum.splits)
  have 2: "case then_do (set_whitelists L a (begin_pass s)) (open_input L a) of
             Inl e \<Rightarrow> ?P e | Inr v \<Rightarrow> ?P v \<and> glob v = reset_globals"
  proof (rule then_do_cases [OF 1])
    fix v assume "?P v \<and> glob v = reset_globals"
    then show "case open_input L a v of
                 Inl e \<Rightarrow> ?P e | Inr w \<Rightarrow> ?P w \<and> glob w = reset_globals"
      using open_input_ready [where b = "begin_pass s" and s = v and L = L and a = a] by (simp split: sum.splits)
  qed
  have 3: "case then_do (then_do (set_whitelists L a (begin_pass s)) (open_input L a))
                  (select_stream L a) of
             Inl e \<Rightarrow> ?P e | Inr (c, v) \<Rightarrow> ?P v \<and> glob v = reset_globals"
  proof (rule then_do_cases [OF 2])
    fix v assume "?P v \<and> glob v = reset_globals"
    then show "case select_stream L a v of
                 Inl e \<Rightarrow> ?P e | Inr (c, w) \<Rightarrow> ?P w \<and> glob w = reset_globals"
      using select_stream_ready [where b = "begin_pass s" and s = v and L = L and a = a] by (simp split: sum.splits prod.splits)
  qed
  have 4: "case then_do (then_do (then_do (set_whitelists L a (begin_pass s)) (open_input L a))
                  (select_stream L a)) (open_output L a) of
             Inl e \<Rightarrow> ?P e | Inr (c, v) \<Rightarrow> ?P v \<and> glob v = reset_globals \<and> dst_open v"
  proof (rule then_do_cases [OF 3])
    fix cv :: "AVCodecContext \<times> 'a state"
    obtain c v where cv: "cv = (c, v)" by (cases cv)
    assume "case cv of (c, v) \<Rightarrow> ?P v \<and> glob v = reset_globals"
    then show "case open_output L a cv of
                 Inl e \<Rightarrow> ?P e
               | Inr (c, w) \<Rightarrow> ?P w \<and> glob w = reset_globals \<and> dst_open w"
      using open_output_ready [where b = "begin_pass s" and s = v and L = L and a = a and c = c]
      by (simp add: cv split: sum.splits prod.splits)
  qed
  have 5: "case then_do (then_do (then_do (then_do (set_whitelists L a (begin_pass s))
                  (open_input L a)) (select_stream L a)) (open_output L a)) (alloc_image L) of
             Inl e \<Rightarrow> ?P e
           | Inr (c, v) \<Rightarrow> ?P v \<and> dst_open v \<and>
               (if codec_type c = AVMEDIA_TYPE_VIDEO
                then 0 \<le> video_dst_bufsize (glob v) \<and> width (glob v) = ctx_width c \<and>
                     height (glob v) = ctx_height c \<and> pix_fmt (glob v) = ctx_pix_fmt c
                else glob v = reset_globals)"
  proof (rule then_do_cases [OF 4])
    fix cv :: "AVCodecContext \<times> 'a state"
    obtain c v where cv: "cv = (c, v)" by (cases cv)
    assume "case cv of (c, v) \<Rightarrow> ?P v \<and> glob v = reset_globals \<and> dst_open v"
    then show "case alloc_image L cv of
                 Inl e \<Rightarrow> ?P e
               | Inr (c, v) \<Rightarrow> ?P v \<and> dst_open v \<and>
                   (if codec_type c = AVMEDIA_TYPE_VIDEO
                    then 0 \<le> video_dst_bufsize (glob v) \<and> width (glob v) = ctx_width c \<and>
                         height (glob v) = ctx_height c \<and> pix_fmt (glob v) = ctx_pix_fmt c
                    else glob v = reset_globals)"
      using alloc_image_ready [where b = "begin_pass s" and s = v and L = L and c = c]
      by (simp add: cv split: sum.splits prod.splits if_splits)
  qed
  show ?thesis
    unfolding prepare_def
  proof (rule then_do_cases [OF 5])
    fix cv :: "AVCodecContext \<times> 'a state"
    obtain c v where cv: "cv = (c, v)" by (cases cv)
    assume "case cv of (c, v) \<Rightarrow> ?P v \<and> dst_open v \<and>
               (if codec_type c = AVMEDIA_TYPE_VIDEO
                then 0 \<le> video_dst_bufsize (glob v) \<and> width (glob v) = ctx_width c \<and>
                     height (glob v) = ctx_height c \<and> pix_fmt (glob v) = ctx_pix_fmt c
                else glob v = reset_globals)"
    then show "case alloc_frame L cv of
                 Inl e \<Rightarrow> ?P e
               | Inr (c, s1) \<Rightarrow> ?P s1 \<and> dst_open s1 \<and> frame s1 = frame_defaults \<and>
                   (if codec_type c = AVMEDIA_TYPE_VIDEO
                    then 0 \<le> video_dst_bufsize (glob s1) \<and> width (glob s1) = ctx_width c \<and>
                         height (glob s1) = ctx_height c \<and> pix_fmt (glob s1) = ctx_pix_fmt c
                    else glob s1 = reset_globals)"
      using alloc_frame_ready [where b = "begin_pass s" and s = v and L = L and c = c]
      by (simp add: cv split: sum.splits prod.splits if_splits)
  qed
qed

lemma prepare_Inl: "prepare L a s = Inl s1 \<Longrightarrow> ready (begin_pass s) s1"
  using prepare_facts [where L = L and a = a and s = s] by simp

lemma prepare_Inr:
  assumes "prepare L a s = Inr (c, s1)"
  shows "ready (begin_pass s) s1" and "dst_open s1" and "frame s1 = frame_defaults"
    and "codec_type c = AVMEDIA_TYPE_VIDEO \<Longrightarrow>
         0 \<le> video_dst_bufsize (glob s1) \<and> width (glob s1) = ctx_width c \<and>
         height (glob s1) = ctx_height c \<and> pix_fmt (glob s1) = ctx_pix_fmt c"
    and "codec_type c \<noteq> AVMEDIA_TYPE_VIDEO \<Longrightarrow> glob s1 = reset_globals"
  using prepare_facts [where L = L and a = a and s = s] assms by simp_all

section \<open>A pass\<close>

lemma cleanup_simps [simp]:
  "glob (cleanup L s) = glob s"
  "ret (cleanup L s) = ret s"
  "dst_open (cleanup L s) = dst_open s"
  "dst_file (cleanup L s) = dst_file s"
  "frame (cleanup L s) = frame s"
  "got_frame (cleanup L s) = got_frame s"
  "frame_count (cleanup L s) = frame_count s"
  "pkt (cleanup L s) = pkt s"
  by (simp_all add: cleanup_def Let_def)

lemma cleanup_counted: "counted s (cleanup L s)"
  by (simp add: counted_def cleanup_def Let_def mismatch_msg_def)

text \<open>A pass that got through the set-up is the pump, the flush and the clean-up.\<close>

lemma pass_Inr:
  assumes "prepare L a s = Inr (c, s1)"
  shows "pass fuel L a s = Some s' \<longleftrightarrow>
     (\<exists>s2 s3. read_loop fuel L c s1 = Some s2 \<and>
        flush_loop fuel L c
          ((emit (Stdout ''Flushing cached frames.'') s2)\<lparr>pkt := \<lparr>pkt_data = 0, pkt_size = 0\<rparr>\<rparr>) =
          Some s3 \<and>
        s' = cleanup L (emit (Stdout ''Demuxing done.'') s3))"
  using assms by (auto simp: pass_def Let_def split: option.splits)

lemma pass_Inl:
  assumes "prepare L a s = Inl s1"
  shows "pass fuel L a s = Some (cleanup L (s1\<lparr>ret := 1\<rparr>))"
  using assms by (simp add: pass_def)

text \<open>What the pump and the flush keep, a pass that got through the set-up keeps.\<close>

lemma pass_keeps:
  assumes prep: "prepare L a s = Inr (c, s1)" and run: "pass fuel L a s = Some s'"
    and start: "P s1"
    and dec: "\<And>s. P s \<Longrightarrow> P (snd (decode_packet L c s))"
    and upd: "\<And>s p. P s \<Longrightarrow> P (s\<lparr>pkt := p\<rparr>)"
    and rd: "\<And>s r p x. P s \<Longrightarrow> P (emit (ReadFrame r) (s\<lparr>ext := x, pkt := p\<rparr>))"
    and fr: "\<And>s. P s \<Longrightarrow> P (av_free_packet L s)"
    and out: "\<And>s m. P s \<Longrightarrow> P (emit (Stdout m) s)"
    and fin: "\<And>s. P s \<Longrightarrow> P (cleanup L s)"
  shows "P s'"
proof -
  obtain s2 s3 where 2: "read_loop fuel L c s1 = Some s2"
    and 3: "flush_loop fuel L c
          ((emit (Stdout ''Flushing cached frames.'') s2)\<lparr>pkt := \<lparr>pkt_data = 0, pkt_size = 0\<rparr>\<rparr>) =
          Some s3"
    and 4: "s' = cleanup L (emit (Stdout ''Demuxing done.'') s3)"
    using run unfolding pass_Inr [OF prep] by blast
  have "P s2" by (rule read_loop_keeps [of P, OF dec upd rd fr start 2])
  then have f: "P ((emit (Stdout ''Flushing cached frames.'') s2)\<lparr>pkt := \<lparr>pkt_data = 0, pkt_size = 0\<rparr>\<rparr>)"
    by (intro upd out)
  have "P s3" by (rule flush_loop_keeps [of P, OF dec f 3])
  then show ?thesis unfolding 4 by (intro fin out)
qed

lemma pass_counted:
  assumes "pass fuel L a s = Some s'"
  shows "counted (begin_pass s) s'"
proof (cases "prepare L a s")
  case (Inl s1)
  have "counted (begin_pass s) s1" using prepare_Inl [OF Inl] by (simp add: ready_def)
  then have "counted (begin_pass s) (s1\<lparr>ret := 1\<rparr>)" by (simp add: counted_def)
  then have "counted (begin_pass s) (cleanup L (s1\<lparr>ret := 1\<rparr>))"
    using cleanup_counted counted_trans by blast
  then show ?thesis using assms pass_Inl [OF Inl] by simp
next
  case (Inr cs)
  obtain c s1 where cs: "cs = (c, s1)" by (cases cs)
  have p: "prepare L a s = Inr (c, s1)" using Inr cs by simp
  have start: "counted (begin_pass s) s1" using prepare_Inr(1) [OF p] by (simp add: ready_def)
  show ?thesis
  proof (rule pass_keeps [of L a s c s1 fuel s' "counted (begin_pass s)", OF p assms start])
    fix t assume "counted (begin_pass s) t"
    then show "counted (begin_pass s) (snd (decode_packet L c t))"
      using counted_decode counted_trans by blast
  next
    fix t p assume "counted (begin_pass s) t"
    then show "counted (begin_pass s) (t\<lparr>pkt := p\<rparr>)" by (simp add: counted_def)
  next
    fix t r p x assume "counted (begin_pass s) t"
    then show "counted (begin_pass s) (emit (ReadFrame r) (t\<lparr>ext := x, pkt := p\<rparr>))"
      by (rule counted_step [where evs = "[ReadFrame r]"]) (simp_all add: mismatch_msg_def)
  next
    fix t assume "counted (begin_pass s) t"
    then show "counted (begin_pass s) (av_free_packet L t)"
      by (rule counted_step [where evs = "[Call ''av_free_packet'']"])
        (simp_all add: mismatch_msg_def)
  next
    fix t m assume "counted (begin_pass s) t"
    then show "counted (begin_pass s) (emit (Stdout m) t)"
      by (rule counted_step [where evs = "[Stdout m]"]) (simp_all add: mismatch_msg_def)
  next
    fix t assume "counted (begin_pass s) t"
    then show "counted (begin_pass s) (cleanup L t)"
      using cleanup_counted counted_trans by blast
  qed
qed

lemma events_since_begin_pass [simp]: "events_since (begin_pass s) s' = events_since s s'"
  by (simp add: events_since_def)

section \<open>The output of a video stream\<close>

text \<open>The image is allocated right after the destination file is opened.\<close>

lemma prepare_open_all:
  "prepare L a s = then_do (then_do (open_all L a s) (alloc_image L)) (alloc_frame L)"
  by (simp add: prepare_def open_all_def)

lemma alloc_image_video:
  assumes "alloc_image L (c, s0) = Inr (c', s1)" and "codec_type c = AVMEDIA_TYPE_VIDEO"
  shows "c' = c \<and> glob s1 = packed_image L c (ext s0)"
  using assms
  by (auto simp: alloc_image_def packed_image_def Let_def split: prod.splits if_splits)

lemma alloc_image_ctx: "alloc_image L (c, s0) = Inr (c', s1) \<Longrightarrow> c' = c"
  by (auto simp: alloc_image_def Let_def split: prod.splits if_splits)

lemma alloc_frame_glob:
  assumes "alloc_frame L (c, s0) = Inr (c', s1)"
  shows "c' = c \<and> glob s1 = glob s0"
  using assms by (auto simp: alloc_frame_def Let_def split: prod.splits if_splits)

lemma prepare_image:
  assumes "prepare L a s = Inr (c, s1)" and "codec_type c = AVMEDIA_TYPE_VIDEO"
  shows "\<exists>s0. open_all L a s = Inr (c, s0) \<and> glob s1 = packed_image L c (ext s0)"
proof (cases "open_all L a s")
  case (Inl e)
  then show ?thesis using assms(1) by (simp add: prepare_open_all then_do_def)
next
  case (Inr cs)
  obtain c0 s0 where cs: "cs = (c0, s0)" by (cases cs)
  show ?thesis
  proof (cases "alloc_image L (c0, s0)")
    case (Inl e)
    then show ?thesis using assms(1) Inr cs by (simp add: prepare_open_all then_do_def)
  next
    case i: (Inr ct)
    obtain c1 t where ct: "ct = (c1, t)" by (cases ct)
    have f: "alloc_frame L (c1, t) = Inr (c, s1)"
      using assms(1) Inr cs i ct by (simp add: prepare_open_all then_do_def)
    have 1: "c = c1 \<and> glob s1 = glob t" by (rule alloc_frame_glob [OF f])
    have 2: "c1 = c0" using alloc_image_ctx i ct by blast
    have "glob t = packed_image L c0 (ext s0)"
      using alloc_image_video [of L c0 s0 c1 t] i ct assms(2) 1 2 by simp
    then show ?thesis using Inr cs 1 2 by simp
  qed
qed

text \<open>The repacked picture is as long as the image buffer.\<close>

lemma length_repacked [simp]:
  "length (repacked L g y) = size_t_of_int (video_dst_bufsize g)"
  by (cases y) (simp add: repacked_def)

lemma length_concat_repacked:
  "length (concat (map (repacked L g) ys)) = length ys * size_t_of_int (video_dst_bufsize g)"
  by (induction ys) simp_all

text \<open>
  One call in the video branch: a picture that fits is repacked, counted and written,
  anything else leaves the file and the counter alone.
\<close>

lemma video_frame_appended:
  assumes "codec_type c = AVMEDIA_TYPE_VIDEO"
    and "avcodec_decode_video2 L c (frame s) (pkt s) (ext s) = ((r, got, fr), x)"
    and "0 \<le> r" and "got \<noteq> 0" and "fits (glob s) fr"
  shows "dst_file (decode_step L c s) = dst_file s @ repacked L (glob s) (fr, x)"
    and "frame_count (decode_step L c s) = frame_count s + 1"
  using assms
  by (simp_all add: decode_step_def decode_packet_def decode_video_def leave_def Let_def
      fits_def repacked_def)

lemma video_frame_refused:
  assumes "codec_type c = AVMEDIA_TYPE_VIDEO"
    and "avcodec_decode_video2 L c (frame s) (pkt s) (ext s) = ((r, got, fr), x)"
    and "r < 0 \<or> got = 0 \<or> \<not> fits (glob s) fr"
  shows "dst_file (decode_step L c s) = dst_file s"
    and "frame_count (decode_step L c s) = frame_count s"
  using assms
  by (auto simp: decode_step_def decode_packet_def decode_video_def leave_def Let_def fits_def)

lemma decode_video_whole:
  assumes v: "codec_type c = AVMEDIA_TYPE_VIDEO" and w: "whole_frames L c s"
  shows "whole_frames L c (snd (decode_packet L c s))"
proof -
  obtain r got fr x where a: "avcodec_decode_video2 L c (frame s) (pkt s) (ext s) = ((r, got, fr), x)"
    by (metis surj_pair)
  have g: "glob (decode_step L c s) = glob s"
    using decode_packet_frame [of L c s] by (simp add: decode_step_def)
  obtain ys where ys: "int (length ys) = frame_count s"
    "\<forall>y \<in> set ys. decoded L c y \<and> fits (glob s) (fst y)"
    "dst_file s = concat (map (repacked L (glob s)) ys)"
    using w unfolding whole_frames_def by blast
  have "whole_frames L c (decode_step L c s)"
  proof (cases "0 \<le> r \<and> got \<noteq> 0 \<and> fits (glob s) fr")
    case True
    have d: "decoded L c (fr, x)" unfolding decoded_def using a True by blast
    have "int (length (ys @ [(fr, x)])) = frame_count (decode_step L c s)"
      using video_frame_appended(2) [OF v a] True ys(1) by simp
    moreover have "\<forall>y \<in> set (ys @ [(fr, x)]).
        decoded L c y \<and> fits (glob (decode_step L c s)) (fst y)"
      using ys(2) d True g by auto
    moreover have "dst_file (decode_step L c s) =
        concat (map (repacked L (glob (decode_step L c s))) (ys @ [(fr, x)]))"
      using video_frame_appended(1) [OF v a] True ys(3) g by simp
    ultimately show ?thesis unfolding whole_frames_def by blast
  next
    case False
    then have n: "r < 0 \<or> got = 0 \<or> \<not> fits (glob s) fr" by auto
    show ?thesis
      unfolding whole_frames_def
      using video_frame_refused [OF v a n] ys g by auto
  qed
  then show ?thesis by (simp add: decode_step_def)
qed

lemma whole_frames_cong:
  assumes "whole_frames L c s" and "glob t = glob s" and "frame_count t = frame_count s"
    and "dst_file t = dst_file s"
  shows "whole_frames L c t"
  using assms by (simp add: whole_frames_def)

text \<open>
  C5. A pass over a video stream that got through the set-up (every step succeeded, so
  the input is valid as far as the program checks) leaves the packed pictures in the
  destination file, and nothing else. The globals of the pass are the packed image of
  the stream: the width W, height H and pixel format F of the stream's context and what
  av_image_alloc gave for (W, H, F) with alignment 1 when it was called, right after the
  destination file was opened; its size is the packed frame size. The file is the
  concatenation of as many repacked pictures as the frame count says: each is the
  content of that buffer, in the packed frame size, after av_image_copy copied a
  decoded W x H x F picture into it. So the length of the file is the frame count times
  the packed frame size, and when no picture was refused for its geometry (all frames
  have the open-time geometry), the frame count is the number of decode calls of the
  pass that produced a unit. Call by call: in a state with these globals, a decode call
  that gives a picture of that geometry appends exactly its repacked bytes, in the
  packed frame size, and counts one frame.
\<close>

theorem C5_video_output_length:
  fixes L :: "'x libav"
  assumes "prepare L a s = Inr (c, s1)" and "codec_type c = AVMEDIA_TYPE_VIDEO"
    and "pass fuel L a s = Some s'"
  shows "\<exists>s0 ys.
           open_all L a s = Inr (c, s0) \<and>
           glob s' = packed_image L c (ext s0) \<and>
           0 \<le> video_dst_bufsize (packed_image L c (ext s0)) \<and>
           int (length ys) = frame_count s' \<and>
           (\<forall>y \<in> set ys. decoded L c y \<and> fits (packed_image L c (ext s0)) (fst y)) \<and>
           dst_file s' = concat (map (repacked L (packed_image L c (ext s0))) ys) \<and>
           length (dst_file s') =
             nat (frame_count s') * size_t_of_int (video_dst_bufsize (packed_image L c (ext s0))) \<and>
           (mismatch_msg \<notin> set (events_since s s') \<longrightarrow>
              frame_count s' = int (length (filter produced (events_since s s'))) \<and>
              length (dst_file s') =
                length (filter produced (events_since s s')) *
                size_t_of_int (video_dst_bufsize (packed_image L c (ext s0)))) \<and>
           (\<forall>(t :: 'x state) r got fr x.
              glob t = packed_image L c (ext s0) \<longrightarrow>
              avcodec_decode_video2 L c (frame t) (pkt t) (ext t) = ((r, got, fr), x) \<longrightarrow>
              0 \<le> r \<longrightarrow> got \<noteq> 0 \<longrightarrow> fits (packed_image L c (ext s0)) fr \<longrightarrow>
              dst_file (decode_step L c t) =
                dst_file t @ repacked L (packed_image L c (ext s0)) (fr, x) \<and>
              length (repacked L (packed_image L c (ext s0)) (fr, x)) =
                size_t_of_int (video_dst_bufsize (packed_image L c (ext s0))) \<and>
              frame_count (decode_step L c t) = frame_count t + 1)"
proof -
  obtain s0 where o: "open_all L a s = Inr (c, s0)"
    and g1: "glob s1 = packed_image L c (ext s0)"
    using prepare_image [OF assms(1,2)] by blast
  let ?g = "packed_image L c (ext s0)"
  have r: "ready (begin_pass s) s1" by (rule prepare_Inr(1) [OF assms(1)])
  have b: "0 \<le> video_dst_bufsize ?g"
    using prepare_Inr(4) [OF assms(1,2)] g1 by simp
  have w1: "whole_frames L c s1" using r by (simp add: ready_def whole_frames_def)
  have w: "whole_frames L c s'"
    by (rule pass_keeps [of L a s c s1 fuel s' "whole_frames L c", OF assms(1,3) w1])
      (simp_all add: decode_video_whole [OF assms(2)], simp_all add: whole_frames_def)
  have gl: "glob s' = glob s1"
    by (rule pass_keeps [of L a s c s1 fuel s' "\<lambda>t. glob t = glob s1", OF assms(1,3)])
      (simp_all add: decode_packet_frame)
  then have g: "glob s' = ?g" using g1 by simp
  obtain ys where ys: "int (length ys) = frame_count s'"
    "\<forall>y \<in> set ys. decoded L c y \<and> fits ?g (fst y)"
    "dst_file s' = concat (map (repacked L ?g) ys)"
    using w g unfolding whole_frames_def by auto
  have len: "length (dst_file s') = nat (frame_count s') * size_t_of_int (video_dst_bufsize ?g)"
    using ys(1) unfolding ys(3) length_concat_repacked by auto
  have c: "counted (begin_pass s) s'" by (rule pass_counted [OF assms(3)])
  have n: "mismatch_msg \<notin> set (events_since s s') \<longrightarrow>
           frame_count s' = int (length (filter produced (events_since s s')))"
    using c by (simp add: counted_events)
  have n': "mismatch_msg \<notin> set (events_since s s') \<longrightarrow>
           frame_count s' = int (length (filter produced (events_since s s'))) \<and>
           length (dst_file s') =
             length (filter produced (events_since s s')) * size_t_of_int (video_dst_bufsize ?g)"
    using n len by auto
  have call: "\<forall>(t :: 'x state) r got fr x.
      glob t = ?g \<longrightarrow>
      avcodec_decode_video2 L c (frame t) (pkt t) (ext t) = ((r, got, fr), x) \<longrightarrow>
      0 \<le> r \<longrightarrow> got \<noteq> 0 \<longrightarrow> fits ?g fr \<longrightarrow>
      dst_file (decode_step L c t) = dst_file t @ repacked L ?g (fr, x) \<and>
      length (repacked L ?g (fr, x)) = size_t_of_int (video_dst_bufsize ?g) \<and>
      frame_count (decode_step L c t) = frame_count t + 1"
  proof (intro allI impI)
    fix t :: "'x state" and r got fr x
    assume t: "glob t = ?g"
      and a: "avcodec_decode_video2 L c (frame t) (pkt t) (ext t) = ((r, got, fr), x)"
      and p: "0 \<le> r" "got \<noteq> 0" "fits ?g fr"
    have f: "fits (glob t) fr" using p(3) t by simp
    show "dst_file (decode_step L c t) = dst_file t @ repacked L ?g (fr, x) \<and>
      length (repacked L ?g (fr, x)) = size_t_of_int (video_dst_bufsize ?g) \<and>
      frame_count (decode_step L c t) = frame_count t + 1"
      using video_frame_appended [OF assms(2) a p(1,2) f] t by simp
  qed
  show ?thesis
    using o g b ys len n' call by blast
qed

text \<open>
  A run with three pictures, two from the packets and one from the flush: the file is
  the three pictures one after another, each without the two bytes that pad its rows.
\<close>

lemmas film_defs = projector_def picture_at_def three_pictures_def

lemma three_pictures_prepare:
  "\<exists>s1. prepare (projector video_ctx) (arguments argv3)
          (register_all (projector video_ctx) (initial_state three_pictures)) =
        Inr (video_ctx, s1)"
  by (simp add: run_defs film_defs argv3_def cong: let_weak_cong prod.case_cong_weak)

lemma three_pictures_pass:
  "map_option (\<lambda>s. (trace s, frame_count s, dst_file s))
     (pass (Suc (Suc (Suc 0))) (projector video_ctx) (arguments argv3)
        (register_all (projector video_ctx) (initial_state three_pictures))) =
   Some
    ([Call ''av_log_set_level'', Call ''av_register_all'',
      Call ''av_dict_set'', Call ''av_dict_set'',
      Call ''avformat_open_input'', Call ''avformat_find_stream_info'',
      Call ''avcodec_find_decoder_by_name'', Call ''avcodec_find_decoder'',
      Call ''av_dict_set'', Call ''av_dict_set'', Call ''av_dict_set'',
      Call ''av_dict_set'', Call ''avcodec_open2'', Call ''av_dict_free'',
      Call ''fopen'', Call ''av_image_alloc'', Call ''av_dump_format'',
      Call ''av_frame_alloc'', Stdout ''Demuxing from file'', ReadFrame 0,
      Decode AVMEDIA_TYPE_VIDEO \<lparr>pkt_data = 100, pkt_size = 10\<rparr> 10 1,
      Stdout ''video_frame n:%d coded_n:%d pts:%s'',
      Call ''av_image_copy'', Call ''av_frame_unref'',
      Call ''av_free_packet'', ReadFrame 0,
      Decode AVMEDIA_TYPE_VIDEO \<lparr>pkt_data = 200, pkt_size = 10\<rparr> 10 1,
      Stdout ''video_frame n:%d coded_n:%d pts:%s'',
      Call ''av_image_copy'', Call ''av_frame_unref'',
      Call ''av_free_packet'', ReadFrame (- 1),
      Stdout ''Flushing cached frames.'',
      Decode AVMEDIA_TYPE_VIDEO \<lparr>pkt_data = 0, pkt_size = 0\<rparr> 0 1,
      Stdout ''video_frame n:%d coded_n:%d pts:%s'',
      Call ''av_image_copy'', Call ''av_frame_unref'',
      Decode AVMEDIA_TYPE_VIDEO \<lparr>pkt_data = 0, pkt_size = 0\<rparr> 0 0,
      Stdout ''Demuxing done.'', Call ''av_dict_free'',
      Call ''avcodec_close'', Call ''avformat_close_input'',
      Call ''fclose'', Call ''av_frame_free'', Call ''av_free''],
     3, [16, 17, 20, 21, 32, 33, 36, 37, 48, 49, 52, 53])"
  by (simp add: run_defs film_defs argv3_def cong: let_weak_cong prod.case_cong_weak)

lemma projector_packed_image:
  "packed_image (projector video_ctx) video_ctx x =
     \<lparr>width = 2, height = 2, pix_fmt = 0,
      video_dst_data = (\<lambda>i. if i = 0 then 64 else 0),
      video_dst_linesize = (\<lambda>i. if i = 0 then 2 else 0), video_dst_bufsize = 4\<rparr>"
  by (simp add: packed_image_def projector_def scripted_def video_ctx_def)

theorem C5_video_output_length_witness:
  "\<exists>s'. pass (Suc (Suc (Suc 0))) (projector video_ctx) (arguments argv3)
          (register_all (projector video_ctx) (initial_state three_pictures)) = Some s' \<and>
        codec_type video_ctx = AVMEDIA_TYPE_VIDEO \<and>
        mismatch_msg \<notin> set (events_since
          (register_all (projector video_ctx) (initial_state three_pictures)) s') \<and>
        length (filter produced (events_since
          (register_all (projector video_ctx) (initial_state three_pictures)) s')) = 3 \<and>
        width (glob s') = 2 \<and> height (glob s') = 2 \<and> video_dst_bufsize (glob s') = 4 \<and>
        frame_count s' = 3 \<and> length (dst_file s') = 12 \<and>
        dst_file s' = [16, 17, 20, 21, 32, 33, 36, 37, 48, 49, 52, 53]"
proof -
  let ?L = "projector video_ctx"
  let ?s = "register_all ?L (initial_state three_pictures)"
  obtain s1 where p: "prepare ?L (arguments argv3) ?s = Inr (video_ctx, s1)"
    using three_pictures_prepare by blast
  obtain s' where run: "pass (Suc (Suc (Suc 0))) ?L (arguments argv3) ?s = Some s'"
    and v: "dst_file s' = [16, 17, 20, 21, 32, 33, 36, 37, 48, 49, 52, 53]"
    and tr: "mismatch_msg \<notin> set (drop (Suc (Suc 0)) (trace s'))"
      "length (filter produced (drop (Suc (Suc 0)) (trace s'))) = 3"
    using three_pictures_pass
    by (auto simp: mismatch_msg_def)
  have t: "codec_type video_ctx = AVMEDIA_TYPE_VIDEO" by (simp add: video_ctx_def)
  have e: "events_since ?s s' = drop (Suc (Suc 0)) (trace s')"
    by (simp add: events_since_def register_all_def initial_state_def)
  have m: "mismatch_msg \<notin> set (events_since ?s s')" using tr(1) e by simp
  have "\<exists>s0 :: film state. glob s' = packed_image ?L video_ctx (ext s0) \<and>
          (mismatch_msg \<notin> set (events_since ?s s') \<longrightarrow>
           frame_count s' = int (length (filter produced (events_since ?s s'))) \<and>
           length (dst_file s') =
             length (filter produced (events_since ?s s')) *
             size_t_of_int (video_dst_bufsize (packed_image ?L video_ctx (ext s0))))"
    using C5_video_output_length [OF p t run]
    by (elim exE conjE) (rule exI, rule conjI, assumption, assumption)
  then obtain s0 :: "film state" where g: "glob s' = packed_image ?L video_ctx (ext s0)"
    and n: "frame_count s' = int (length (filter produced (events_since ?s s')))"
      "length (dst_file s') =
         length (filter produced (events_since ?s s')) *
         size_t_of_int (video_dst_bufsize (packed_image ?L video_ctx (ext s0)))"
    using m by blast
  have "frame_count s' = 3" using n(1) e tr(2) by simp
  moreover have "length (dst_file s') = 12"
    using n(2) e tr(2) by (simp add: projector_packed_image size_t_of_int_def)
  moreover have "width (glob s') = 2 \<and> height (glob s') = 2 \<and> video_dst_bufsize (glob s') = 4"
    using g by (simp add: projector_packed_image)
  ultimately show ?thesis using run t m e tr(2) v by auto
qed

section \<open>The flush\<close>

text \<open>
  C7. A pass that got through the set-up ends exactly when the pump has ended (on an
  av_read_frame that returned a negative value) and, from the state the pump left,
  with the message printed and the packet set to data NULL and size 0, some call of
  decode_packet reports no unit. The pass then is the clean-up of the state after the
  first such call: every call before it reported a unit, and every call of the flush
  sees the empty packet. The flush happens once, between the pump and the clean-up.
\<close>

theorem C7_one_flush:
  assumes "prepare L a s = Inr (c, s1)"
  shows "pass fuel L a s = Some s' \<longleftrightarrow>
     (\<exists>s2 k. read_loop fuel L c s1 = Some s2 \<and> k < fuel \<and>
        (\<exists>r<0. last (trace s2) = ReadFrame r) \<and>
        (let f = (emit (Stdout ''Flushing cached frames.'') s2)
                   \<lparr>pkt := \<lparr>pkt_data = 0, pkt_size = 0\<rparr>\<rparr>
         in s' = cleanup L (emit (Stdout ''Demuxing done.'') ((decode_step L c ^^ Suc k) f)) \<and>
            got_frame ((decode_step L c ^^ Suc k) f) = 0 \<and>
            (\<forall>i<k. got_frame ((decode_step L c ^^ Suc i) f) \<noteq> 0) \<and>
            (\<forall>i\<le>k. pkt ((decode_step L c ^^ i) f) = \<lparr>pkt_data = 0, pkt_size = 0\<rparr>)))"
proof
  assume "pass fuel L a s = Some s'"
  then obtain s2 s3 where 2: "read_loop fuel L c s1 = Some s2"
    and 3: "flush_loop fuel L c
          ((emit (Stdout ''Flushing cached frames.'') s2)\<lparr>pkt := \<lparr>pkt_data = 0, pkt_size = 0\<rparr>\<rparr>) =
          Some s3"
    and 4: "s' = cleanup L (emit (Stdout ''Demuxing done.'') s3)"
    unfolding pass_Inr [OF assms] by blast
  let ?f = "(emit (Stdout ''Flushing cached frames.'') s2)\<lparr>pkt := \<lparr>pkt_data = 0, pkt_size = 0\<rparr>\<rparr>"
  obtain k where k: "k < fuel" "s3 = (decode_step L c ^^ Suc k) ?f" "got_frame s3 = 0"
    "\<forall>i<k. got_frame ((decode_step L c ^^ Suc i) ?f) \<noteq> 0"
    using 3 unfolding flush_loop_iff by blast
  have e: "\<exists>r<0. last (trace s2) = ReadFrame r" using read_loop_ends [OF 2] by blast
  have p: "\<forall>i\<le>k. pkt ((decode_step L c ^^ i) ?f) = \<lparr>pkt_data = 0, pkt_size = 0\<rparr>"
    by (simp add: decode_steps_pkt)
  show "\<exists>s2 k. read_loop fuel L c s1 = Some s2 \<and> k < fuel \<and>
        (\<exists>r<0. last (trace s2) = ReadFrame r) \<and>
        (let f = (emit (Stdout ''Flushing cached frames.'') s2)
                   \<lparr>pkt := \<lparr>pkt_data = 0, pkt_size = 0\<rparr>\<rparr>
         in s' = cleanup L (emit (Stdout ''Demuxing done.'') ((decode_step L c ^^ Suc k) f)) \<and>
            got_frame ((decode_step L c ^^ Suc k) f) = 0 \<and>
            (\<forall>i<k. got_frame ((decode_step L c ^^ Suc i) f) \<noteq> 0) \<and>
            (\<forall>i\<le>k. pkt ((decode_step L c ^^ i) f) = \<lparr>pkt_data = 0, pkt_size = 0\<rparr>))"
    unfolding Let_def using 2 4 k e p by blast
next
  assume "\<exists>s2 k. read_loop fuel L c s1 = Some s2 \<and> k < fuel \<and>
        (\<exists>r<0. last (trace s2) = ReadFrame r) \<and>
        (let f = (emit (Stdout ''Flushing cached frames.'') s2)
                   \<lparr>pkt := \<lparr>pkt_data = 0, pkt_size = 0\<rparr>\<rparr>
         in s' = cleanup L (emit (Stdout ''Demuxing done.'') ((decode_step L c ^^ Suc k) f)) \<and>
            got_frame ((decode_step L c ^^ Suc k) f) = 0 \<and>
            (\<forall>i<k. got_frame ((decode_step L c ^^ Suc i) f) \<noteq> 0) \<and>
            (\<forall>i\<le>k. pkt ((decode_step L c ^^ i) f) = \<lparr>pkt_data = 0, pkt_size = 0\<rparr>))"
  then obtain s2 k where 2: "read_loop fuel L c s1 = Some s2" and k: "k < fuel"
    and 4: "s' = cleanup L (emit (Stdout ''Demuxing done.'')
              ((decode_step L c ^^ Suc k)
                 ((emit (Stdout ''Flushing cached frames.'') s2)
                    \<lparr>pkt := \<lparr>pkt_data = 0, pkt_size = 0\<rparr>\<rparr>)))"
    and g: "got_frame ((decode_step L c ^^ Suc k)
                 ((emit (Stdout ''Flushing cached frames.'') s2)
                    \<lparr>pkt := \<lparr>pkt_data = 0, pkt_size = 0\<rparr>\<rparr>)) = 0"
      "\<forall>i<k. got_frame ((decode_step L c ^^ Suc i)
                 ((emit (Stdout ''Flushing cached frames.'') s2)
                    \<lparr>pkt := \<lparr>pkt_data = 0, pkt_size = 0\<rparr>\<rparr>)) \<noteq> 0"
    unfolding Let_def by blast
  have "flush_loop fuel L c
          ((emit (Stdout ''Flushing cached frames.'') s2)\<lparr>pkt := \<lparr>pkt_data = 0, pkt_size = 0\<rparr>\<rparr>) =
        Some ((decode_step L c ^^ Suc k)
                 ((emit (Stdout ''Flushing cached frames.'') s2)
                    \<lparr>pkt := \<lparr>pkt_data = 0, pkt_size = 0\<rparr>\<rparr>))"
    unfolding flush_loop_iff using k g by blast
  with 2 4 show "pass fuel L a s = Some s'"
    unfolding pass_Inr [OF assms] by blast
qed

lemma held_back_prepare:
  "\<exists>s1. prepare (scripted video_ctx) (arguments argv3)
          (register_all (scripted video_ctx) (initial_state held_back)) = Inr (video_ctx, s1)"
  by (simp add: run_defs argv3_def held_back_def cong: let_weak_cong prod.case_cong_weak)

lemma held_back_pass:
  "map_option (\<lambda>s. (drop 19 (trace s), frame_count s, length (dst_file s)))
     (pass (Suc (Suc (Suc 0))) (scripted video_ctx) (arguments argv3)
        (register_all (scripted video_ctx) (initial_state held_back))) =
   Some
    ([ReadFrame 0,
      Decode AVMEDIA_TYPE_VIDEO \<lparr>pkt_data = 100, pkt_size = 10\<rparr> 10 0,
      Call ''av_free_packet'', ReadFrame (- 1),
      Stdout ''Flushing cached frames.'',
      Decode AVMEDIA_TYPE_VIDEO \<lparr>pkt_data = 0, pkt_size = 0\<rparr> 0 1,
      Stdout ''video_frame n:%d coded_n:%d pts:%s'',
      Call ''av_image_copy'', Call ''av_frame_unref'',
      Decode AVMEDIA_TYPE_VIDEO \<lparr>pkt_data = 0, pkt_size = 0\<rparr> 0 0,
      Stdout ''Demuxing done.'', Call ''av_dict_free'',
      Call ''avcodec_close'', Call ''avformat_close_input'',
      Call ''fclose'', Call ''av_frame_free'', Call ''av_free''], 1, 4)"
  by (simp add: run_defs argv3_def held_back_def cong: let_weak_cong prod.case_cong_weak)

theorem C7_one_flush_witness:
  "\<exists>s1 s' s2 k.
     prepare (scripted video_ctx) (arguments argv3)
       (register_all (scripted video_ctx) (initial_state held_back)) = Inr (video_ctx, s1) \<and>
     pass (Suc (Suc (Suc 0))) (scripted video_ctx) (arguments argv3)
       (register_all (scripted video_ctx) (initial_state held_back)) = Some s' \<and>
     frame_count s' = 1 \<and>
     read_loop (Suc (Suc (Suc 0))) (scripted video_ctx) video_ctx s1 = Some s2 \<and>
     k < Suc (Suc (Suc 0)) \<and>
     s' = cleanup (scripted video_ctx) (emit (Stdout ''Demuxing done.'')
            ((decode_step (scripted video_ctx) video_ctx ^^ Suc k)
               ((emit (Stdout ''Flushing cached frames.'') s2)
                  \<lparr>pkt := \<lparr>pkt_data = 0, pkt_size = 0\<rparr>\<rparr>)))"
proof -
  let ?L = "scripted video_ctx"
  let ?s = "register_all ?L (initial_state held_back)"
  obtain s1 where p: "prepare ?L (arguments argv3) ?s = Inr (video_ctx, s1)"
    using held_back_prepare by blast
  obtain s' where run: "pass (Suc (Suc (Suc 0))) ?L (arguments argv3) ?s = Some s'"
    and n: "frame_count s' = 1"
    using held_back_pass by auto
  from run obtain s2 k where "read_loop (Suc (Suc (Suc 0))) ?L video_ctx s1 = Some s2"
    "k < Suc (Suc (Suc 0))"
    "s' = cleanup ?L (emit (Stdout ''Demuxing done.'')
            ((decode_step ?L video_ctx ^^ Suc k)
               ((emit (Stdout ''Flushing cached frames.'') s2)
                  \<lparr>pkt := \<lparr>pkt_data = 0, pkt_size = 0\<rparr>\<rparr>)))"
    unfolding C7_one_flush [OF p] Let_def by blast
  with p run n show ?thesis by blast
qed

section \<open>A decode error in the pump\<close>

lemma packet_loop_counted: "packet_loop n L c s = Some s' \<Longrightarrow> counted s s'"
proof (rule packet_loop_keeps [of "counted s" L c s n s'])
  fix t assume "counted s t"
  then show "counted s (snd (decode_packet L c t))" using counted_decode counted_trans by blast
next
  fix t p assume "counted s t"
  then show "counted s (t\<lparr>pkt := p\<rparr>)" by (simp add: counted_def)
qed (simp_all add: counted_refl)

lemma read_loop_counted: "read_loop n L c s = Some s' \<Longrightarrow> counted s s'"
proof (rule read_loop_keeps [of "counted s" L c s n s'])
  fix t assume "counted s t"
  then show "counted s (snd (decode_packet L c t))" using counted_decode counted_trans by blast
next
  fix t p assume "counted s t"
  then show "counted s (t\<lparr>pkt := p\<rparr>)" by (simp add: counted_def)
next
  fix t r p x assume "counted s t"
  then show "counted s (emit (ReadFrame r) (t\<lparr>ext := x, pkt := p\<rparr>))"
    by (rule counted_step [where evs = "[ReadFrame r]"]) (simp_all add: mismatch_msg_def)
next
  fix t assume "counted s t"
  then show "counted s (av_free_packet L t)"
    by (rule counted_step [where evs = "[Call ''av_free_packet'']"])
      (simp_all add: mismatch_msg_def)
qed (simp_all add: counted_refl)

lemma counted_prefix: "counted s s' \<Longrightarrow> \<exists>evs. trace s' = trace s @ evs"
  by (auto simp: counted_def)

text \<open>
  C1, as the code has it. When decode_packet returns a negative value in the pump, the
  loop over the packet ends there, in the state that call left: the dispatcher is not
  called again on the rest of the packet. The run goes on: however the loop over a
  packet ended, the pump frees the packet and continues with the next turn of the read
  loop, and the first thing that turn does is to call av_read_frame, so the next packet
  of the container is read.
\<close>

theorem C1_error_ends_packet_only:
  assumes "decode_packet L c t = (d, s1)" and "d < 0"
  shows "packet_loop (Suc m) L c t = Some s1 \<and>
         (\<forall>s r p x n. av_read_frame L (ext s) = ((r, p), x) \<longrightarrow> 0 \<le> r \<longrightarrow>
            packet_loop n L c (emit (ReadFrame r) (s\<lparr>ext := x, pkt := p\<rparr>)) = Some s1 \<longrightarrow>
            read_loop (Suc n) L c s = read_loop n L c (av_free_packet L s1)) \<and>
         (\<forall>n s'. read_loop n L c (av_free_packet L s1) = Some s' \<longrightarrow>
            (\<exists>r' evs. trace s' = trace s1 @ Call ''av_free_packet'' # ReadFrame r' # evs))"
proof (intro conjI allI impI)
  show "packet_loop (Suc m) L c t = Some s1" using assms by simp
next
  fix s r p x n
  assume "av_read_frame L (ext s) = ((r, p), x)" and "0 \<le> r"
    and "packet_loop n L c (emit (ReadFrame r) (s\<lparr>ext := x, pkt := p\<rparr>)) = Some s1"
  then show "read_loop (Suc n) L c s = read_loop n L c (av_free_packet L s1)" by simp
next
  fix n s'
  assume run: "read_loop n L c (av_free_packet L s1) = Some s'"
  let ?f = "av_free_packet L s1"
  obtain k where n: "n = Suc k" using run by (cases n) simp_all
  obtain r p x where r: "av_read_frame L (ext ?f) = ((r, p), x)" by (metis surj_pair)
  let ?t = "emit (ReadFrame r) (?f\<lparr>ext := x, pkt := p\<rparr>)"
  have tr: "trace ?t = trace s1 @ [Call ''av_free_packet'', ReadFrame r]" by simp
  have "\<exists>evs. trace s' = trace ?t @ evs"
  proof (cases "0 \<le> r")
    case True
    with run n r obtain s2 where 2: "packet_loop k L c ?t = Some s2"
      and 3: "read_loop k L c (av_free_packet L s2) = Some s'"
      by (auto split: option.splits)
    have "counted ?t s2" by (rule packet_loop_counted [OF 2])
    moreover have "counted s2 (av_free_packet L s2)"
      by (rule counted_step [OF counted_refl, where evs = "[Call ''av_free_packet'']"])
        (simp_all add: mismatch_msg_def)
    moreover have "counted (av_free_packet L s2) s'" by (rule read_loop_counted [OF 3])
    ultimately have "counted ?t s'" using counted_trans by blast
    then show ?thesis by (rule counted_prefix)
  next
    case False
    with run n r have "s' = ?t" by simp
    then show ?thesis by simp
  qed
  then obtain evs where "trace s' = trace ?t @ evs" by blast
  then have "trace s' = trace s1 @ Call ''av_free_packet'' # ReadFrame r # evs"
    unfolding tr by simp
  then show "\<exists>r' evs. trace s' = trace s1 @ Call ''av_free_packet'' # ReadFrame r' # evs"
    by blast
qed

lemma two_packets_main:
  "map_option fst (main (Suc (Suc (Suc 0))) False (scripted video_ctx) argv3 two_packets) = Some 0"
  "map_option (trace \<circ> snd) (main (Suc (Suc (Suc 0))) False (scripted video_ctx) argv3 two_packets) =
   Some
    [Call ''av_log_set_level'', Call ''av_register_all'',
     Call ''av_dict_set'', Call ''av_dict_set'',
     Call ''avformat_open_input'', Call ''avformat_find_stream_info'',
     Call ''avcodec_find_decoder_by_name'', Call ''avcodec_find_decoder'',
     Call ''av_dict_set'',
     Call ''av_dict_set'', Call ''av_dict_set'', Call ''av_dict_set'',
     Call ''avcodec_open2'', Call ''av_dict_free'', Call ''fopen'',
     Call ''av_image_alloc'', Call ''av_dump_format'',
     Call ''av_frame_alloc'', Stdout ''Demuxing from file'', ReadFrame 0,
     Decode AVMEDIA_TYPE_VIDEO \<lparr>pkt_data = 100, pkt_size = 10\<rparr> (- 1) 0,
     Stderr ''Error decoding video frame (%s)'', Call ''av_free_packet'',
     ReadFrame 0,
     Decode AVMEDIA_TYPE_VIDEO \<lparr>pkt_data = 200, pkt_size = 10\<rparr> 10 1,
     Stdout ''video_frame n:%d coded_n:%d pts:%s'',
     Call ''av_image_copy'', Call ''av_frame_unref'',
     Call ''av_free_packet'', ReadFrame (- 1),
     Stdout ''Flushing cached frames.'',
     Decode AVMEDIA_TYPE_VIDEO \<lparr>pkt_data = 0, pkt_size = 0\<rparr> 0 0,
     Stdout ''Demuxing done.'', Call ''av_dict_free'',
     Call ''avcodec_close'', Call ''avformat_close_input'',
     Call ''fclose'', Call ''av_frame_free'', Call ''av_free'', Exit 0]"
  by (simp_all add: run_defs argv3_def two_packets_def cong: let_weak_cong prod.case_cong_weak)

text \<open>
  C1 as stated fails. In the run over \<open>two_packets\<close> the decode call on the first
  packet fails; the pump then reads the second packet and decodes a picture from it.
\<close>

theorem C1_next_packet_is_read:
  "map_option (read_after_error \<circ> trace \<circ> snd)
     (main (Suc (Suc (Suc 0))) False (scripted video_ctx) argv3 two_packets) = Some True"
proof -
  obtain r where r: "main (Suc (Suc (Suc 0))) False (scripted video_ctx) argv3 two_packets = Some r"
    using two_packets_main(1) by (cases "main (Suc (Suc (Suc 0))) False (scripted video_ctx) argv3 two_packets") simp_all
  show ?thesis using two_packets_main(2) unfolding r by simp
qed

theorem C1_error_ends_packet_only_witness:
  "\<exists>s1. decode_packet (scripted video_ctx) video_ctx
            (emit (ReadFrame 0) ((pumping two_packets)
               \<lparr>ext := two_packets\<lparr>packets := [packet 200 10]\<rparr>, pkt := packet 100 10\<rparr>)) =
          (- 1, s1) \<and>
        packet_loop (Suc (Suc 0)) (scripted video_ctx) video_ctx
            (emit (ReadFrame 0) ((pumping two_packets)
               \<lparr>ext := two_packets\<lparr>packets := [packet 200 10]\<rparr>, pkt := packet 100 10\<rparr>)) =
          Some s1 \<and>
        read_loop (Suc (Suc (Suc 0))) (scripted video_ctx) video_ctx (pumping two_packets) =
          read_loop (Suc (Suc 0)) (scripted video_ctx) video_ctx
            (av_free_packet (scripted video_ctx) s1)"
proof -
  let ?L = "scripted video_ctx"
  let ?x = "two_packets\<lparr>packets := [packet 200 10]\<rparr>"
  let ?t = "emit (ReadFrame 0) ((pumping two_packets)\<lparr>ext := ?x, pkt := packet 100 10\<rparr>)"
  obtain d s1 where d: "decode_packet ?L video_ctx ?t = (d, s1)" by (metis surj_pair)
  have "fst (decode_packet ?L video_ctx ?t) = - 1"
    by (simp add: run_defs two_packets_def cong: let_weak_cong prod.case_cong_weak)
  with d have neg: "d = - 1" "d < 0" by simp_all
  have rd: "av_read_frame ?L (ext (pumping two_packets)) = ((0, packet 100 10), ?x)"
    by (simp add: scripted_def pumping_def initial_state_def two_packets_def)
  note C1 = C1_error_ends_packet_only [OF d neg(2), of "Suc 0"]
  have 1: "packet_loop (Suc (Suc 0)) ?L video_ctx ?t = Some s1" using C1 by blast
  have "read_loop (Suc (Suc (Suc 0))) ?L video_ctx (pumping two_packets) =
          read_loop (Suc (Suc 0)) ?L video_ctx (av_free_packet ?L s1)"
    using C1 rd 1 by (metis order_refl)
  with d neg(1) 1 show ?thesis by blast
qed

section \<open>The exit status\<close>

text \<open>What makes each step of the set-up fail.\<close>

lemma then_do_fails: "isl (then_do m f) \<longleftrightarrow> isl m \<or> (\<exists>v. m = Inr v \<and> isl (f v))"
  by (cases m) (simp_all add: then_do_def)

lemma set_whitelists_fails:
  "isl (set_whitelists L a s) \<longleftrightarrow>
     fst (av_dict_set L ''codec_whitelist'' (codec a) (ext s)) < 0 \<or>
     fst (av_dict_set L ''format_whitelist'' (format a)
            (snd (av_dict_set L ''codec_whitelist'' (codec a) (ext s)))) < 0"
  by (simp add: set_whitelists_def dict_set_def Let_def split_def)

lemma open_input_fails:
  "isl (open_input L a s) \<longleftrightarrow>
     (case format a of
        None \<Rightarrow> fst (avformat_open_input L (src_filename a) (ext s)) < 0
      | Some f \<Rightarrow>
          \<not> fst (av_find_input_format L f (ext s)) \<or>
          fst (avformat_open_input L (src_filename a) (snd (av_find_input_format L f (ext s)))) < 0)"
  by (simp add: open_input_def Let_def split_def split: option.splits)

lemma open_codec_context_fails:
  "fst (fst (open_codec_context L n s)) < 0 \<longleftrightarrow>
     (case find_stream (avcodec_find_decoder_by_name L n (ext s)) (take INT_MAX (streams L (ext s))) of
        None \<Rightarrow> True
      | Some c \<Rightarrow>
          (case (case avcodec_find_decoder_by_name L n (ext s) of
                   None \<Rightarrow> avcodec_find_decoder L (codec_id c) (ext s) | Some d \<Rightarrow> Some d) of
             None \<Rightarrow> True
           | Some d \<Rightarrow>
               fst (fst (avcodec_open2 L c d
                 (snd (av_dict_set L ''thread_type'' (Some ''slice'')
                   (snd (av_dict_set L ''codec_whitelist'' n
                     (snd (av_dict_set L ''strict'' (Some ''-2'')
                       (snd (av_dict_set L ''refcounted_frames'' (Some ''1'') (ext s)))))))))))
               < 0))"
  by (simp add: open_codec_context_def dict_set_def Let_def split_def split: option.splits)

lemma select_stream_fails:
  "isl (select_stream L a s) \<longleftrightarrow> fst (fst (open_codec_context L (codec a) s)) < 0"
proof (cases "fst (fst (open_codec_context L (codec a) s)) < 0")
  case True
  then show ?thesis by (simp add: select_stream_def Let_def split_def)
next
  case False
  then have "snd (fst (open_codec_context L (codec a) s)) \<noteq> None"
    using open_codec_context_ctx [of L "codec a" s] by simp
  with False show ?thesis
    by (auto simp: select_stream_def Let_def split_def split: option.splits)
qed

lemma open_output_fails:
  "isl (open_output L a (c, s)) \<longleftrightarrow> \<not> fst (fopen L (dst_filename a) (ext s))"
  by (simp add: open_output_def Let_def split_def)

lemma alloc_image_fails:
  "isl (alloc_image L (c, s)) \<longleftrightarrow>
     codec_type c = AVMEDIA_TYPE_VIDEO \<and>
     fst (fst (av_image_alloc L (ctx_width c) (ctx_height c) (ctx_pix_fmt c) 1 (ext s))) < 0"
  by (simp add: alloc_image_def Let_def split_def)

lemma alloc_frame_fails:
  "isl (alloc_frame L (c, s)) \<longleftrightarrow>
     \<not> fst (av_frame_alloc L (lib_void L ''av_dump_format'' (ext s)))"
  by (simp add: alloc_frame_def Let_def split_def)

lemma pass_ret:
  assumes "pass fuel L a s = Some s'"
  shows "ret s' = (case prepare L a s of Inl e \<Rightarrow> 1 | Inr r \<Rightarrow> 0)"
proof (cases "prepare L a s")
  case (Inl e)
  have "s' = cleanup L (e\<lparr>ret := 1\<rparr>)" using assms pass_Inl [OF Inl, of fuel] by simp
  then show ?thesis using Inl by simp
next
  case (Inr cs)
  obtain c s1 where cs: "cs = (c, s1)" by (cases cs)
  have p: "prepare L a s = Inr (c, s1)" using Inr cs by simp
  have "ret s1 = 0" using prepare_Inr(1) [OF p] by (simp add: ready_def)
  then have "ret s' = 0"
    by (rule pass_keeps [of L a s c s1 fuel s' "\<lambda>t. ret t = 0", OF p assms])
      (simp_all add: decode_packet_frame)
  then show ?thesis using Inr by simp
qed

text \<open>
  C2, as the code has it. Built without the fuzzing loop, the program exits with
  status 1 when the argument count is wrong or a step of the set-up fails (a whitelist
  option, the input format, the input file, the stream or its decoder, the destination
  file, the raw image buffer, the frame), and then it always ends; when the set-up
  succeeds and the run ends, the status is 0, whatever decode_packet returned in the
  pump and the flush.
\<close>

theorem C2_exit_status:
  "(\<forall>st s'. main fuel False L argv x = Some (st, s') \<longrightarrow>
      st = (if length argv \<noteq> 5 \<and> length argv \<noteq> 3 then 1
            else case prepare L (arguments argv) (register_all L (initial_state x)) of
                   Inl e \<Rightarrow> 1 | Inr r \<Rightarrow> 0)) \<and>
   (length argv \<noteq> 5 \<and> length argv \<noteq> 3 \<longrightarrow>
      map_option fst (main fuel False L argv x) = Some 1) \<and>
   (\<forall>e. (length argv = 5 \<or> length argv = 3) \<longrightarrow>
      prepare L (arguments argv) (register_all L (initial_state x)) = Inl e \<longrightarrow>
      map_option fst (main fuel False L argv x) = Some 1)"
proof (intro conjI allI impI)
  fix st s'
  assume m: "main fuel False L argv x = Some (st, s')"
  show "st = (if length argv \<noteq> 5 \<and> length argv \<noteq> 3 then 1
            else case prepare L (arguments argv) (register_all L (initial_state x)) of
                   Inl e \<Rightarrow> 1 | Inr r \<Rightarrow> 0)"
  proof (cases "length argv \<noteq> 5 \<and> length argv \<noteq> 3")
    case True
    with m show ?thesis by (simp add: main_def Let_def)
  next
    case False
    with m obtain s2 where
      "pass fuel L (arguments argv) (register_all L (initial_state x)) = Some s2" and "st = ret s2"
      by (auto simp: main_def Let_def split: option.splits)
    with False show ?thesis using pass_ret [of fuel L "arguments argv" _ s2] by auto
  qed
next
  assume "length argv \<noteq> 5 \<and> length argv \<noteq> 3"
  then show "map_option fst (main fuel False L argv x) = Some 1"
    by (simp add: main_def Let_def)
next
  fix e
  assume "length argv = 5 \<or> length argv = 3"
    and "prepare L (arguments argv) (register_all L (initial_state x)) = Inl e"
  then show "map_option fst (main fuel False L argv x) = Some 1"
    using pass_Inl [of L "arguments argv" "register_all L (initial_state x)" e fuel]
    by (auto simp: main_def Let_def)
qed

lemma reshaped_main:
  "map_option fst (main (Suc (Suc 0)) False (scripted video_ctx) argv3 reshaped) = Some 0"
  "map_option (trace \<circ> snd) (main (Suc (Suc 0)) False (scripted video_ctx) argv3 reshaped) =
   Some
    [Call ''av_log_set_level'', Call ''av_register_all'',
     Call ''av_dict_set'', Call ''av_dict_set'',
     Call ''avformat_open_input'', Call ''avformat_find_stream_info'',
     Call ''avcodec_find_decoder_by_name'', Call ''avcodec_find_decoder'',
     Call ''av_dict_set'',
     Call ''av_dict_set'', Call ''av_dict_set'', Call ''av_dict_set'',
     Call ''avcodec_open2'', Call ''av_dict_free'', Call ''fopen'',
     Call ''av_image_alloc'', Call ''av_dump_format'',
     Call ''av_frame_alloc'', Stdout ''Demuxing from file'', ReadFrame 0,
     Decode AVMEDIA_TYPE_VIDEO \<lparr>pkt_data = 100, pkt_size = 10\<rparr> 10 1,
     Stderr ''Error: input video width/height/format changed:'',
     Call ''av_free_packet'', ReadFrame (- 1),
     Stdout ''Flushing cached frames.'',
     Decode AVMEDIA_TYPE_VIDEO \<lparr>pkt_data = 0, pkt_size = 0\<rparr> 0 0,
     Stdout ''Demuxing done.'', Call ''av_dict_free'',
     Call ''avcodec_close'', Call ''avformat_close_input'',
     Call ''fclose'', Call ''av_frame_free'', Call ''av_free'', Exit 0]"
  by (simp_all add: run_defs argv3_def reshaped_def cong: let_weak_cong prod.case_cong_weak)

lemma reshaped_prepare:
  "\<exists>s1. prepare (scripted video_ctx) (arguments argv3)
          (register_all (scripted video_ctx) (initial_state reshaped)) = Inr (video_ctx, s1)"
  by (simp add: run_defs argv3_def reshaped_def cong: let_weak_cong prod.case_cong_weak)

text \<open>
  C2 as stated fails. The stream of \<open>reshaped\<close> was opened as 2x2 and the decoder gives
  a 4x2 picture: decode_packet prints the message of line 65 and returns -1, the pump
  drops the packet, and the program exits with status 0.
\<close>

theorem C2_mismatch_exits_0:
  "map_option fst (main (Suc (Suc 0)) False (scripted video_ctx) argv3 reshaped) = Some 0 \<and>
   map_option (list_ex ((=) mismatch_msg) \<circ> trace \<circ> snd)
     (main (Suc (Suc 0)) False (scripted video_ctx) argv3 reshaped) = Some True"
proof -
  obtain r where r: "main (Suc (Suc 0)) False (scripted video_ctx) argv3 reshaped = Some r"
    using reshaped_main(1)
    by (cases "main (Suc (Suc 0)) False (scripted video_ctx) argv3 reshaped") simp_all
  show ?thesis using reshaped_main unfolding r by (simp add: mismatch_msg_def)
qed

theorem C2_exit_status_witness:
  "\<exists>s' s1. main (Suc (Suc 0)) False (scripted video_ctx) argv3 reshaped = Some (0, s') \<and>
      length argv3 = 3 \<and>
      prepare (scripted video_ctx) (arguments argv3)
        (register_all (scripted video_ctx) (initial_state reshaped)) = Inr (video_ctx, s1)"
proof -
  obtain st s' where m: "main (Suc (Suc 0)) False (scripted video_ctx) argv3 reshaped = Some (st, s')"
    using reshaped_main(1)
    by (cases "main (Suc (Suc 0)) False (scripted video_ctx) argv3 reshaped") auto
  obtain s1 where p: "prepare (scripted video_ctx) (arguments argv3)
        (register_all (scripted video_ctx) (initial_state reshaped)) = Inr (video_ctx, s1)"
    using reshaped_prepare by blast
  have l: "length argv3 = 3" by (simp add: argv3_def)
  have "st = 0"
    using C2_exit_status [where fuel = "Suc (Suc 0)" and L = "scripted video_ctx"
        and argv = argv3 and x = reshaped] m p l
    by simp
  with m p l show ?thesis by blast
qed

section \<open>The argument check\<close>

lemma pass_prefix: "pass fuel L a s = Some s' \<Longrightarrow> \<exists>evs. trace s' = trace s @ evs"
  using pass_counted [of fuel L a s s'] counted_prefix [of "begin_pass s" s'] by simp

lemma fuzz_loop_prefix: "fuzz_loop n L a s = Some s' \<Longrightarrow> \<exists>evs. trace s' = trace s @ evs"
proof (induction n arbitrary: s)
  case 0
  then show ?case by simp
next
  case (Suc n)
  obtain again x where g: "AFL_LOOP L 1000 (ext s) = (again, x)" by (metis surj_pair)
  let ?t = "emit (Call ''__AFL_LOOP'') (s\<lparr>ext := x\<rparr>)"
  show ?case
  proof (cases again)
    case True
    with Suc.prems g obtain s2 where 2: "pass n L a ?t = Some s2"
      and 3: "fuzz_loop n L a s2 = Some s'"
      by (auto split: option.splits)
    obtain e1 where "trace s2 = trace ?t @ e1" using pass_prefix [OF 2] by blast
    moreover obtain e2 where "trace s' = trace s2 @ e2" using Suc.IH [OF 3] by blast
    ultimately show ?thesis by simp
  next
    case False
    with Suc.prems g have "s' = ?t" by simp
    then show ?thesis by simp
  qed
qed

text \<open>
  C6. With an argument count other than 3 and 5, main prints the usage text and exits
  with status 1, whatever the fuel and the build: nothing else happens, the library
  state is the one main started with and no file was opened. With 3 or 5 arguments it
  goes on to register the library and run the pipeline on these arguments, so a run
  that ends has av_log_set_level and av_register_all as its first two events.
\<close>

theorem C6_argument_count:
  "(length argv \<noteq> 5 \<and> length argv \<noteq> 3 \<longrightarrow>
      main fuel afl L argv x = Some (1, (initial_state x)\<lparr>trace := [usage, Exit 1]\<rparr>)) \<and>
   (length argv = 5 \<or> length argv = 3 \<longrightarrow>
      main fuel afl L argv x =
        map_option (\<lambda>s. (ret s, emit (Exit (ret s)) s))
          (if afl then fuzz_loop fuel L (arguments argv) (register_all L (initial_state x))
           else pass fuel L (arguments argv) (register_all L (initial_state x))) \<and>
      (\<forall>st s'. main fuel afl L argv x = Some (st, s') \<longrightarrow>
         take 2 (trace s') = [Call ''av_log_set_level'', Call ''av_register_all'']))"
proof (intro conjI impI allI)
  assume "length argv \<noteq> 5 \<and> length argv \<noteq> 3"
  then show "main fuel afl L argv x = Some (1, (initial_state x)\<lparr>trace := [usage, Exit 1]\<rparr>)"
    by (simp add: main_def Let_def emit_def initial_state_def)
next
  assume "length argv = 5 \<or> length argv = 3"
  then show "main fuel afl L argv x =
        map_option (\<lambda>s. (ret s, emit (Exit (ret s)) s))
          (if afl then fuzz_loop fuel L (arguments argv) (register_all L (initial_state x))
           else pass fuel L (arguments argv) (register_all L (initial_state x)))"
    by (auto simp: main_def Let_def split: option.splits)
next
  fix st s'
  assume n: "length argv = 5 \<or> length argv = 3" and m: "main fuel afl L argv x = Some (st, s')"
  let ?s = "register_all L (initial_state x)"
  from n m obtain s2 where s2: "s' = emit (Exit (ret s2)) s2"
    and run: "(if afl then fuzz_loop fuel L (arguments argv) ?s
               else pass fuel L (arguments argv) ?s) = Some s2"
    by (auto simp: main_def Let_def split: option.splits if_splits)
  have "\<exists>evs. trace s2 = trace ?s @ evs"
    using run pass_prefix [of fuel L "arguments argv" ?s s2]
      fuzz_loop_prefix [of fuel L "arguments argv" ?s s2]
    by (simp split: if_splits)
  then obtain evs where "trace s2 = trace ?s @ evs" by blast
  then have "trace s' = [Call ''av_log_set_level'', Call ''av_register_all''] @ evs @ [Exit (ret s2)]"
    by (simp add: s2 register_all_def initial_state_def)
  then show "take 2 (trace s') = [Call ''av_log_set_level'', Call ''av_register_all'']"
    by simp
qed

theorem C6_argument_count_witness:
  "main (Suc 0) False (scripted video_ctx) [''prog'', ''in'', ''out'', ''avi''] reshaped =
     Some (1, (initial_state reshaped)\<lparr>trace := [usage, Exit 1]\<rparr>) \<and>
   length [''prog'', ''in'', ''out'', ''avi''] = 4 \<and> length argv3 = 3 \<and>
   map_option (take 2 \<circ> trace \<circ> snd)
     (main (Suc (Suc 0)) False (scripted video_ctx) argv3 reshaped) =
     Some [Call ''av_log_set_level'', Call ''av_register_all'']"
proof -
  have 4: "length [''prog'', ''in'', ''out'', ''avi''] = 4" by simp
  have 3: "length argv3 = 3" by (simp add: argv3_def)
  obtain st s' where m: "main (Suc (Suc 0)) False (scripted video_ctx) argv3 reshaped = Some (st, s')"
    using reshaped_main(1)
    by (cases "main (Suc (Suc 0)) False (scripted video_ctx) argv3 reshaped") auto
  have "take 2 (trace s') = [Call ''av_log_set_level'', Call ''av_register_all'']"
    using C6_argument_count [where argv = argv3 and fuel = "Suc (Suc 0)" and afl = False
        and L = "scripted video_ctx" and x = reshaped] 3 m
    by simp
  then have b: "map_option (take 2 \<circ> trace \<circ> snd)
     (main (Suc (Suc 0)) False (scripted video_ctx) argv3 reshaped) =
     Some [Call ''av_log_set_level'', Call ''av_register_all'']"
    by (simp add: m)
  have a: "main (Suc 0) False (scripted video_ctx) [''prog'', ''in'', ''out'', ''avi''] reshaped =
     Some (1, (initial_state reshaped)\<lparr>trace := [usage, Exit 1]\<rparr>)"
    using C6_argument_count [where argv = "[''prog'', ''in'', ''out'', ''avi'']"
        and fuel = "Suc 0" and afl = False and L = "scripted video_ctx" and x = reshaped]
    by simp
  show ?thesis using a b 3 4 by simp
qed

section \<open>The reset at the start of a pass\<close>

lemma begin_pass_glob [simp]: "begin_pass (s\<lparr>glob := g\<rparr>) = begin_pass s"
  by (simp add: begin_pass_def)

lemma prepare_glob [simp]: "prepare L a (s\<lparr>glob := g\<rparr>) = prepare L a s"
  by (simp add: prepare_def)

lemma pass_glob: "pass fuel L a (s\<lparr>glob := g\<rparr>) = pass fuel L a s"
  by (simp add: pass_def)

text \<open>
  C9. A pass starts by setting the width, the height and the buffer size to 0, the
  pixel format to AV_PIX_FMT_NONE, and every data pointer and line size to 0, before
  its first library call. So what a pass does does not depend on the values the
  globals had when it started, nor does a fuzzing loop that runs a pass at all.
\<close>

theorem C9_globals_reset:
  "glob (begin_pass s) =
     \<lparr>width = 0, height = 0, pix_fmt = AV_PIX_FMT_NONE, video_dst_data = (\<lambda>i. 0),
      video_dst_linesize = (\<lambda>i. 0), video_dst_bufsize = 0\<rparr> \<and>
   trace (begin_pass s) = trace s \<and> ext (begin_pass s) = ext s \<and>
   prepare L a s =
     then_do (then_do (then_do (then_do (then_do
       (set_whitelists L a (begin_pass s)) (open_input L a)) (select_stream L a))
       (open_output L a)) (alloc_image L)) (alloc_frame L) \<and>
   pass fuel L a (s\<lparr>glob := g\<rparr>) = pass fuel L a s \<and>
   (fst (AFL_LOOP L 1000 (ext s)) \<longrightarrow>
      fuzz_loop fuel L a (s\<lparr>glob := g\<rparr>) = fuzz_loop fuel L a s)"
proof -
  have "fuzz_loop fuel L a (s\<lparr>glob := g\<rparr>) = fuzz_loop fuel L a s"
    if "fst (AFL_LOOP L 1000 (ext s))"
  proof (cases fuel)
    case 0
    then show ?thesis by simp
  next
    case (Suc n)
    obtain again x where x: "AFL_LOOP L 1000 (ext s) = (again, x)" by (metis surj_pair)
    have eq: "emit (Call ''__AFL_LOOP'') (s\<lparr>glob := g, ext := x\<rparr>) =
          (emit (Call ''__AFL_LOOP'') (s\<lparr>ext := x\<rparr>))\<lparr>glob := g\<rparr>"
      by (simp add: emit_def)
    have "pass n L a (emit (Call ''__AFL_LOOP'') (s\<lparr>glob := g, ext := x\<rparr>)) =
          pass n L a (emit (Call ''__AFL_LOOP'') (s\<lparr>ext := x\<rparr>))"
      unfolding eq by (rule pass_glob)
    then show ?thesis using Suc x that by simp
  qed
  then show ?thesis by (simp add: pass_glob reset_globals_def prepare_def)
qed

theorem C9_globals_reset_witness:
  "glob (begin_pass (pumping reshaped)) =
     \<lparr>width = 0, height = 0, pix_fmt = - 1, video_dst_data = (\<lambda>i. 0),
      video_dst_linesize = (\<lambda>i. 0), video_dst_bufsize = 0\<rparr> \<and>
   width (glob (pumping reshaped)) = 2 \<and>
   pass (Suc (Suc 0)) (scripted video_ctx) (arguments argv3)
     ((register_all (scripted video_ctx) (initial_state reshaped))\<lparr>glob := glob (pumping reshaped)\<rparr>) =
   pass (Suc (Suc 0)) (scripted video_ctx) (arguments argv3)
     (register_all (scripted video_ctx) (initial_state reshaped))"
  using C9_globals_reset [where s = "pumping reshaped" and L = "scripted video_ctx"
      and a = "arguments argv3" and fuel = "Suc (Suc 0)" and g = "glob (pumping reshaped)"]
    C9_globals_reset [where s = "register_all (scripted video_ctx) (initial_state reshaped)"
      and L = "scripted video_ctx" and a = "arguments argv3" and fuel = "Suc (Suc 0)"
      and g = "glob (pumping reshaped)"]
  by (simp add: AV_PIX_FMT_NONE_def pumping_def)

end
